theory Spec2Isabelle
  imports Complex_Main
begin

section \<open>Python values and errors\<close>

text \<open>
  The utilities of \<^verbatim>\<open>utility_functions.py\<close> are array transformations. Python
  lists are lists, and every exception the code can raise is a value of type
  \<open>error\<close> returned on the left of a sum. A Python float is a double; a value of
  type \<open>real\<close> stands for the number a double holds. Comparisons, \<^verbatim>\<open>int\<close>, the
  ceiling and \<^verbatim>\<open>np.round\<close> are exact on doubles, but a sum, a difference, a product
  and a quotient are rounded. The encoder and the paired segmenter, whose loops are
  driven by such results, therefore take the four operations as a parameter;
  \<open>exact\<close> is the arithmetic without rounding.
\<close>

record float_ops =
  fadd :: "real \<Rightarrow> real \<Rightarrow> real"
  fsub :: "real \<Rightarrow> real \<Rightarrow> real"
  fmul :: "real \<Rightarrow> real \<Rightarrow> real"
  fdiv :: "real \<Rightarrow> real \<Rightarrow> real"

definition exact :: float_ops where
  "exact = \<lparr>fadd = (\<lambda>a b. a + b), fsub = (\<lambda>a b. a - b),
            fmul = (\<lambda>a b. a * b), fdiv = (\<lambda>a b. a / b)\<rparr>"

datatype error =
    IndexError
  | KeyError
  | TypeError
  | ZeroDivisionError
  | AxisError
  | ValueError string

definition ebind :: "error + 'a \<Rightarrow> ('a \<Rightarrow> error + 'b) \<Rightarrow> error + 'b" where
  "ebind m f = (case m of Inl e \<Rightarrow> Inl e | Inr v \<Rightarrow> f v)"

text \<open>A \<^verbatim>\<open>for\<close> loop over a list that threads a state and stops at the first raise.\<close>

fun efold :: "('a \<Rightarrow> 's \<Rightarrow> error + 's) \<Rightarrow> 'a list \<Rightarrow> 's \<Rightarrow> error + 's" where
  "efold f [] s = Inr s"
| "efold f (x # xs) s = ebind (f x s) (efold f xs)"

text \<open>A list comprehension whose body may raise.\<close>

fun emap :: "('a \<Rightarrow> error + 'b) \<Rightarrow> 'a list \<Rightarrow> error + 'b list" where
  "emap f [] = Inr []"
| "emap f (x # xs) = ebind (f x) (\<lambda>y. ebind (emap f xs) (\<lambda>ys. Inr (y # ys)))"

text \<open>\<^verbatim>\<open>xs[i]\<close> and \<^verbatim>\<open>xs[i] = v\<close> for a non-negative index: out of range raises.\<close>

definition py_get :: "'a list \<Rightarrow> nat \<Rightarrow> error + 'a" where
  "py_get xs i = (if i < length xs then Inr (xs ! i) else Inl IndexError)"

definition py_set :: "'a list \<Rightarrow> nat \<Rightarrow> 'a \<Rightarrow> error + 'a list" where
  "py_set xs i v = (if i < length xs then Inr (xs[i := v]) else Inl IndexError)"

text \<open>\<^verbatim>\<open>enumerate(xs)\<close>.\<close>

definition enumerate_py :: "'a list \<Rightarrow> (nat \<times> 'a) list" where
  "enumerate_py xs = enumerate 0 xs"

text \<open>\<^verbatim>\<open>xs.index(x)\<close>: the first position of \<open>x\<close>, a ValueError when absent.\<close>

fun index_of :: "'a list \<Rightarrow> 'a \<Rightarrow> error + nat" where
  "index_of [] x = Inl (ValueError ''is not in list'')"
| "index_of (y # ys) x =
     (if y = x then Inr 0 else ebind (index_of ys x) (\<lambda>n. Inr (Suc n)))"

text \<open>\<^verbatim>\<open>int(x)\<close> on a float truncates towards zero.\<close>

definition py_int :: "real \<Rightarrow> int" where
  "py_int x = (if 0 \<le> x then \<lfloor>x\<rfloor> else \<lceil>x\<rceil>)"

text \<open>
  \<^verbatim>\<open>np.round\<close> rounds to the nearest integer and a tie to the even neighbour.
\<close>

definition np_round :: "real \<Rightarrow> int" where
  "np_round x =
     (let f = \<lfloor>x\<rfloor>; d = x - of_int f
      in if d < 1 / 2 then f
         else if 1 / 2 < d then f + 1
         else if even f then f else f + 1)"

text \<open>
  \<^verbatim>\<open>np.arange(start, stop, step)\<close> on floats. numpy takes the ceiling of the
  quotient \<open>(stop - start) / step\<close>, computed in doubles, as the number of values; a
  zero step raises. The first value is \<open>start\<close>, the second \<open>start + step\<close>, and
  value \<open>k\<close> is \<open>start + k * delta\<close> with \<open>delta\<close> the difference of the first two.
\<close>

definition arange_value :: "float_ops \<Rightarrow> real \<Rightarrow> real \<Rightarrow> nat \<Rightarrow> real" where
  "arange_value fl start step k =
     (if k = 0 then start
      else if k = 1 then fadd fl start step
      else fadd fl start (fmul fl (real k) (fsub fl (fadd fl start step) start)))"

definition np_arange_real :: "float_ops \<Rightarrow> real \<Rightarrow> real \<Rightarrow> real \<Rightarrow> error + real list" where
  "np_arange_real fl start stop step =
     (if step = 0 then Inl ZeroDivisionError
      else Inr (map (arange_value fl start step)
                  [0..<nat \<lceil>fdiv fl (fsub fl stop start) step\<rceil>]))"

section \<open>The frame-label encoder \<^verbatim>\<open>get_label_task2\<close>\<close>

text \<open>
  A row of the annotation file as \<^verbatim>\<open>df.values.tolist()\<close> gives it: column 1 is
  Start, 2 End, 3 Class, 4 to 6 are X, Y, Z (column 0, the file name, is never read).
\<close>

record csv_row =
  Start_col :: real
  End_col :: real
  Class_col :: string
  X_col :: real
  Y_col :: real
  Z_col :: real

text \<open>An entry of \<^verbatim>\<open>class_dict[clas]\<close>: \<^verbatim>\<open>[start, end, x, y, z]\<close>.\<close>

type_synonym event = "real \<times> real \<times> real \<times> real \<times> real"

text \<open>
  A Python dict keeps its keys in insertion order; assigning to a key that is present
  keeps the key's place.
\<close>

fun dict_set :: "('k \<times> 'v) list \<Rightarrow> 'k \<Rightarrow> 'v \<Rightarrow> ('k \<times> 'v) list" where
  "dict_set [] k v = [(k, v)]"
| "dict_set ((k', v') # d) k v =
     (if k' = k then (k, v) # d else (k', v') # dict_set d k v)"

text \<open>\<^verbatim>\<open>class_dict[k].append(v)\<close>: a KeyError when the key is missing.\<close>

definition dict_append ::
  "('k \<times> 'v list) list \<Rightarrow> 'k \<Rightarrow> 'v \<Rightarrow> error + ('k \<times> 'v list) list" where
  "dict_append d k v =
     (case map_of d k of
        None \<Rightarrow> Inl KeyError
      | Some l \<Rightarrow> Inr (dict_set d k (l @ [v])))"

text \<open>Lines 175 to 188: one empty list per class name, then the rows of each class.\<close>

definition build_class_dict ::
  "csv_row list \<Rightarrow> string list \<Rightarrow> error + (string \<times> event list) list" where
  "build_class_dict df classes_names =
     efold
       (\<lambda>class_name d.
          efold
            (\<lambda>data d'.
               dict_append d' (Class_col data)
                 (Start_col data, End_col data, X_col data, Y_col data, Z_col data))
            (filter (\<lambda>r. Class_col r = class_name) df) d)
       classes_names
       (foldl (\<lambda>d class_name. dict_set d class_name []) [] classes_names)"

text \<open>Lines 196 to 207: the three overlap conditions, all with strict comparisons.\<close>

definition is_in :: "real \<Rightarrow> real \<Rightarrow> real \<Rightarrow> real \<Rightarrow> bool" where
  "is_in start_audio end_audio start_f end_f =
     (if start_audio < start_f \<and> end_audio > end_f then True
      else if end_audio > start_f \<and> end_audio < end_f then True
      else if start_audio > start_f \<and> start_audio < end_f then True
      else False)"

text \<open>Lines 210 to 215: the presence slot of one event in the row of its frame.\<close>

definition mark_class :: "nat \<Rightarrow> int option list \<Rightarrow> error + int option list" where
  "mark_class ind_class cv =
     ebind (py_get cv ind_class) (\<lambda>c0.
       if c0 = None then py_set cv ind_class (Some 1)
       else ebind (py_get cv (ind_class + 1)) (\<lambda>c1.
         if c1 = None then py_set cv (ind_class + 1) (Some 1)
         else py_set cv (ind_class + 2) (Some 1)))"

text \<open>Three consecutive writes \<^verbatim>\<open>lv[b] = x; lv[b+1] = y; lv[b+2] = z\<close>.\<close>

definition write3 ::
  "real option list \<Rightarrow> nat \<Rightarrow> real \<Rightarrow> real \<Rightarrow> real \<Rightarrow> error + real option list" where
  "write3 lv b x y z =
     ebind (py_set lv b (Some x)) (\<lambda>lv1.
     ebind (py_set lv1 (b + 1) (Some y)) (\<lambda>lv2.
     py_set lv2 (b + 2) (Some z)))"

text \<open>
  Lines 216 to 227: the location slot of the event. The second test reads
  \<^verbatim>\<open>loc_vec[j][ind_class+1]\<close>, as the source has it.
\<close>

definition mark_loc ::
  "nat \<Rightarrow> real \<Rightarrow> real \<Rightarrow> real \<Rightarrow> real option list \<Rightarrow> error + real option list" where
  "mark_loc ind_class x_audio y_audio z_audio lv =
     ebind (py_get lv (ind_class * 3)) (\<lambda>l0.
       if l0 = None then write3 lv (0 + ind_class * 3) x_audio y_audio z_audio
       else ebind (py_get lv (ind_class + 1)) (\<lambda>l1.
         if l1 = None then write3 lv (3 + ind_class * 3) x_audio y_audio z_audio
         else write3 lv (6 + ind_class * 3) x_audio y_audio z_audio))"

text \<open>Lines 195 to 227: one annotated event against frame \<open>j\<close>.\<close>

definition encode_event ::
  "nat \<Rightarrow> real \<Rightarrow> real \<Rightarrow> string list \<Rightarrow> string \<Rightarrow> event \<Rightarrow>
   int option list list \<times> real option list list \<Rightarrow>
   error + (int option list list \<times> real option list list)" where
  "encode_event j start_f end_f classes_names clas data st =
     (case data of (start_audio, end_audio, x_audio, y_audio, z_audio) \<Rightarrow>
      case st of (class_vec, loc_vec) \<Rightarrow>
        if is_in start_audio end_audio start_f end_f then
          ebind (index_of classes_names clas) (\<lambda>idx.
          ebind (py_get class_vec j) (\<lambda>cv.
          ebind (mark_class (idx * 3) cv) (\<lambda>cv'.
          ebind (py_get loc_vec j) (\<lambda>lv.
          ebind (mark_loc (idx * 3) x_audio y_audio z_audio lv) (\<lambda>lv'.
            Inr (class_vec[j := cv'], loc_vec[j := lv']))))))
        else Inr (class_vec, loc_vec))"

text \<open>Lines 228 to 233: every entry of row \<open>j\<close> still \<^verbatim>\<open>None\<close> becomes 0.\<close>

definition fill_none :: "'a::zero option list \<Rightarrow> 'a option list" where
  "fill_none row = map (\<lambda>v. if v = None then Some 0 else v) row"

text \<open>Lines 190 to 233: the body of the loop over the frames.\<close>

definition encode_frame ::
  "float_ops \<Rightarrow> real \<Rightarrow> string list \<Rightarrow> (string \<times> event list) list \<Rightarrow> nat \<times> real \<Rightarrow>
   int option list list \<times> real option list list \<Rightarrow>
   error + (int option list list \<times> real option list list)" where
  "encode_frame fl frame_len classes_names class_dict ji st =
     (case ji of (j, i) \<Rightarrow>
        ebind
          (efold
             (\<lambda>entry. case entry of (clas, data_list) \<Rightarrow>
                efold (encode_event j (fsub fl i frame_len) i classes_names clas) data_list)
             class_dict st)
          (\<lambda>st'. case st' of (class_vec, loc_vec) \<Rightarrow>
             ebind (py_get loc_vec j) (\<lambda>lv.
             ebind (py_get class_vec j) (\<lambda>cv.
               Inr (class_vec[j := fill_none cv], loc_vec[j := fill_none lv])))))"

text \<open>\<^verbatim>\<open>np.array\<close> of a row followed by arithmetic: a remaining \<^verbatim>\<open>None\<close> raises.\<close>

definition to_float :: "real option \<Rightarrow> error + real" where
  "to_float v = (case v of None \<Rightarrow> Inl TypeError | Some r \<Rightarrow> Inr r)"

definition int_to_float :: "int option \<Rightarrow> error + real" where
  "int_to_float v = (case v of None \<Rightarrow> Inl TypeError | Some n \<Rightarrow> Inr (of_int n))"

text \<open>
  Lines 235 to 244: the location part divided by \<open>max_label_distance\<close> and stacked
  to the right of the class part. With no frame row at all \<^verbatim>\<open>class_vec.shape[1]\<close>
  does not exist.
\<close>

definition stack_labels ::
  "float_ops \<Rightarrow> int option list list \<Rightarrow> real option list list \<Rightarrow> real \<Rightarrow>
   error + real list list" where
  "stack_labels fl class_vec loc_vec max_label_distance =
     (if class_vec = [] then Inl IndexError
      else
        ebind (emap (emap to_float) loc_vec) (\<lambda>loc.
        ebind (emap (emap int_to_float) class_vec) (\<lambda>cl.
          Inr (map2 (\<lambda>c l. c @ map (\<lambda>v. fdiv fl v max_label_distance) l) cl loc))))"

definition get_label_task2 ::
  "float_ops \<Rightarrow> csv_row list \<Rightarrow> real \<Rightarrow> real \<Rightarrow> string list \<Rightarrow> nat \<Rightarrow> real \<Rightarrow>
   error + real list list" where
  "get_label_task2 fl df frame_len file_size classes_names num_frames max_label_distance =
     (let num_classes = length classes_names;
          class_vec = replicate num_frames (replicate (num_classes * 3) None);
          loc_vec = replicate num_frames (replicate (num_classes * 9) None)
      in
        ebind (build_class_dict df classes_names) (\<lambda>class_dict.
        ebind (np_arange_real fl frame_len (fadd fl file_size frame_len) frame_len) (\<lambda>frames.
        ebind (efold (encode_frame fl frame_len classes_names class_dict) (enumerate_py frames)
                 (class_vec, loc_vec)) (\<lambda>st.
          stack_labels fl (fst st) (snd st) max_label_distance))))"

text \<open>
  Two predicates on the pair of label matrices, used to follow the loop over the
  frames: every row has three presence and nine location entries per class, and a
  step changes no row but row \<open>j\<close>.
\<close>

definition shape_ok :: "nat \<Rightarrow> nat \<Rightarrow> int option list list \<times> real option list list \<Rightarrow> bool" where
  "shape_ok F n st =
     (length (fst st) = F \<and> length (snd st) = F \<and>
      list_all (\<lambda>cv. length cv = n * 3) (fst st) \<and>
      list_all (\<lambda>lv. length lv = n * 9) (snd st))"

definition same_but :: "nat \<Rightarrow> int option list list \<times> real option list list \<Rightarrow>
    int option list list \<times> real option list list \<Rightarrow> bool" where
  "same_but j st st' =
     (\<forall>k. k \<noteq> j \<longrightarrow> fst st' ! k = fst st ! k \<and> snd st' ! k = snd st ! k)"

text \<open>
  What a frame row is compared with. The events of a class are the rows of the
  annotation file with that class name, in file order; those overlapping a frame window
  are the ones the three conditions accept; an event carries its coordinates.
\<close>

definition class_events :: "csv_row list \<Rightarrow> string \<Rightarrow> event list" where
  "class_events df class_name =
     map (\<lambda>data. (Start_col data, End_col data, X_col data, Y_col data, Z_col data))
       (filter (\<lambda>r. Class_col r = class_name) df)"

definition overlapping :: "real \<Rightarrow> real \<Rightarrow> event list \<Rightarrow> event list" where
  "overlapping start_f end_f evs =
     filter (\<lambda>ev. case ev of (start_audio, end_audio, x, y, z) \<Rightarrow>
               is_in start_audio end_audio start_f end_f) evs"

definition coords :: "event \<Rightarrow> real \<times> real \<times> real" where
  "coords ev = (case ev of (start_audio, end_audio, x, y, z) \<Rightarrow> (x, y, z))"

text \<open>
  The entries of an output row for \<open>n\<close> classes: presence slot \<open>k\<close> of class \<open>c\<close>,
  and the three coordinates in location slot \<open>k\<close> of class \<open>c\<close>.
\<close>

definition presence_at :: "real list \<Rightarrow> nat \<Rightarrow> nat \<Rightarrow> real" where
  "presence_at row c k = row ! (c * 3 + k)"

definition location_at :: "real list \<Rightarrow> nat \<Rightarrow> nat \<Rightarrow> nat \<Rightarrow> real \<times> real \<times> real" where
  "location_at row n c k =
     (row ! (n * 3 + c * 9 + k * 3),
      row ! (n * 3 + c * 9 + k * 3 + 1),
      row ! (n * 3 + c * 9 + k * 3 + 2))"

definition normalized :: "float_ops \<Rightarrow> real \<Rightarrow> real \<times> real \<times> real \<Rightarrow> real \<times> real \<times> real" where
  "normalized fl max_label_distance xyz =
     (case xyz of (x, y, z) \<Rightarrow>
        (fdiv fl x max_label_distance, fdiv fl y max_label_distance,
         fdiv fl z max_label_distance))"

text \<open>
  The entries of class \<open>c\<close> in the two working rows of a frame after the events
  \<open>evs\<close> of that class have been marked: presence in the first slots, the
  coordinates of the first event in location slot 0, and those of the last event in
  location slot 1 or 2 once there are two events or more.
\<close>

definition slot_is :: "real option list \<Rightarrow> nat \<Rightarrow> nat \<Rightarrow> real \<times> real \<times> real \<Rightarrow> bool" where
  "slot_is lv c k xyz =
     (case xyz of (x, y, z) \<Rightarrow>
        lv ! (c * 9 + k * 3) = Some x \<and> lv ! (c * 9 + k * 3 + 1) = Some y \<and>
        lv ! (c * 9 + k * 3 + 2) = Some z)"

definition class_marked :: "nat \<Rightarrow> event list \<Rightarrow> int option list \<Rightarrow> real option list \<Rightarrow> bool" where
  "class_marked c evs cv lv =
     ((\<forall>k<3. cv ! (c * 3 + k) = (if k < length evs then Some 1 else None)) \<and>
      (evs = [] \<longrightarrow> lv ! (c * 9) = None) \<and>
      (evs \<noteq> [] \<longrightarrow> slot_is lv c 0 (coords (hd evs))) \<and>
      (2 \<le> length evs \<longrightarrow> slot_is lv c 1 (coords (last evs)) \<or> slot_is lv c 2 (coords (last evs))))"

text \<open>
  The events of class number \<open>c\<close> that overlap frame \<open>j\<close>: the window of the frame
  ends at the \<open>j\<close>-th value \<open>i\<close> of \<^verbatim>\<open>np.arange(frame_len, file_size + frame_len, frame_len)\<close>
  and starts at \<open>i - frame_len\<close> (lines 190 to 194).
\<close>

definition frame_events ::
  "float_ops \<Rightarrow> csv_row list \<Rightarrow> real \<Rightarrow> string list \<Rightarrow> nat \<Rightarrow> nat \<Rightarrow> event list" where
  "frame_events fl df frame_len classes_names j c =
     (let i = arange_value fl frame_len frame_len j
      in overlapping (fsub fl i frame_len) i (class_events df (classes_names ! c)))"

section \<open>The write loop of \<^verbatim>\<open>csv_to_matrix_task2\<close>\<close>

text \<open>
  Lines 138 to 144, the body of the loop over the frames \<open>f\<close> of one sound:
  \<^verbatim>\<open>cl\<close> has the shape (frames, classes, max_overlap) and \<^verbatim>\<open>loc\<close> the shape
  (frames, classes, max_overlap, 3). The slot \<open>pos\<close> is the number of sounds of
  the class already written to the frame, and numpy checks every index.
\<close>

definition write_sound ::
  "nat \<Rightarrow> real \<Rightarrow> real \<Rightarrow> real \<Rightarrow> nat \<Rightarrow>
   real list list list \<times> real list list list list \<Rightarrow>
   error + (real list list list \<times> real list list list list)" where
  "write_sound class_id x y z f st =
     (case st of (cl, loc) \<Rightarrow>
        ebind (py_get cl f) (\<lambda>cl_f.
        ebind (py_get cl_f class_id) (\<lambda>slots.
          (let pos = nat (py_int (sum_list slots)) in
             ebind (py_set slots pos 1) (\<lambda>slots'.
             ebind (py_get loc f) (\<lambda>loc_f.
             ebind (py_get loc_f class_id) (\<lambda>lslots.
             ebind (py_get lslots pos) (\<lambda>xyz.
             ebind (py_set xyz 0 x) (\<lambda>xyz1.
             ebind (py_set xyz1 1 y) (\<lambda>xyz2.
             ebind (py_set xyz2 2 z) (\<lambda>xyz3.
               Inr (cl[f := cl_f[class_id := slots']],
                    loc[f := loc_f[class_id := lslots[pos := xyz3]]]))))))))))))"

text \<open>Lines 137 to 144: \<^verbatim>\<open>for f in np.arange(start_frame, end_frame+1)\<close>.\<close>

definition write_sound_frames ::
  "nat \<Rightarrow> nat \<Rightarrow> nat \<Rightarrow> real \<Rightarrow> real \<Rightarrow> real \<Rightarrow>
   real list list list \<times> real list list list list \<Rightarrow>
   error + (real list list list \<times> real list list list list)" where
  "write_sound_frames start_frame end_frame class_id x y z st =
     efold (write_sound class_id x y z) [start_frame..<end_frame + 1] st"

section \<open>The submission-list decoder \<^verbatim>\<open>gen_submission_list_task2\<close>\<close>

text \<open>
  \<^verbatim>\<open>l.reshape(num_classes, max_overlaps, 3)\<close> of a flat row, read at
  \<^verbatim>\<open>[predicted_class][num_event][k]\<close>: the reshape raises unless the sizes agree,
  the read raises out of range, and the layout is row-major.
\<close>

definition reshape_get ::
  "real list \<Rightarrow> nat \<Rightarrow> nat \<Rightarrow> nat \<Rightarrow> nat \<Rightarrow> nat \<Rightarrow> error + real" where
  "reshape_get l num_classes max_overlaps predicted_class num_event k =
     (if predicted_class < num_classes \<and> num_event < max_overlaps \<and> k < 3
      then Inr (l ! ((predicted_class * max_overlaps + num_event) * 3 + k))
      else Inl IndexError)"

text \<open>A row of the output: \<^verbatim>\<open>[time_frame, sound_class, x, y, z]\<close>.\<close>

type_synonym submission_row = "nat \<times> nat \<times> real \<times> real \<times> real"

text \<open>Lines 98 to 103: one rounded entry \<open>e\<close> at position \<open>j\<close> of frame \<open>i\<close>.\<close>

definition decode_slot ::
  "nat \<Rightarrow> real list \<Rightarrow> nat \<Rightarrow> nat \<Rightarrow> nat \<times> int \<Rightarrow> submission_row list \<Rightarrow>
   error + submission_row list" where
  "decode_slot i l num_classes max_overlaps je output =
     (case je of (j, e) \<Rightarrow>
        if e \<noteq> 0 then
          (if max_overlaps = 0 then Inl ZeroDivisionError
           else
             (let predicted_class = j div max_overlaps;
                  num_event = j mod max_overlaps
              in
                ebind (reshape_get l num_classes max_overlaps predicted_class num_event 0) (\<lambda>x.
                ebind (reshape_get l num_classes max_overlaps predicted_class num_event 1) (\<lambda>y.
                ebind (reshape_get l num_classes max_overlaps predicted_class num_event 2) (\<lambda>z.
                  Inr (output @ [(i, predicted_class, x, y, z)]))))))
        else Inr output)"

text \<open>Lines 90 to 103: one time frame, its scores \<open>c\<close> and its locations \<open>l\<close>.\<close>

definition decode_frame ::
  "real \<Rightarrow> nat \<Rightarrow> nat \<Rightarrow> nat \<times> real list \<times> real list \<Rightarrow> submission_row list \<Rightarrow>
   error + submission_row list" where
  "decode_frame max_loc_value num_classes max_overlaps icl output =
     (case icl of (i, c, l) \<Rightarrow>
        (let c' = map np_round c;
             l' = map (\<lambda>v. v * max_loc_value) l
         in
           if length l' \<noteq> num_classes * max_overlaps * 3
           then Inl (ValueError ''cannot reshape array'')
           else if sum_list c' = 0 then Inr output
           else efold (decode_slot i l' num_classes max_overlaps) (enumerate_py c') output))"

definition gen_submission_list_task2 ::
  "real list list \<Rightarrow> real list list \<Rightarrow> real \<Rightarrow> nat \<Rightarrow> nat \<Rightarrow> error + submission_row list" where
  "gen_submission_list_task2 sed doa max_loc_value num_classes max_overlaps =
     efold (decode_frame max_loc_value num_classes max_overlaps)
       (enumerate_py (zip sed doa)) []"

text \<open>
  The encoder followed by the decoder: the stacked label matrix is split into its class
  part (the first \<open>num_classes * 3\<close> columns) and its location part, and both
  are decoded with the encoder's own constants (three overlap slots).
\<close>

definition encode_decode ::
  "float_ops \<Rightarrow> csv_row list \<Rightarrow> real \<Rightarrow> real \<Rightarrow> string list \<Rightarrow> nat \<Rightarrow> real \<Rightarrow>
   error + submission_row list" where
  "encode_decode fl df frame_len file_size classes_names num_frames max_loc =
     ebind (get_label_task2 fl df frame_len file_size classes_names num_frames max_loc)
       (\<lambda>stacked.
          gen_submission_list_task2
            (map (take (length classes_names * 3)) stacked)
            (map (drop (length classes_names * 3)) stacked)
            max_loc (length classes_names) 3)"

text \<open>
  What the decoder is expected to emit for frame \<open>i\<close> with scores \<open>c\<close> and
  locations \<open>l\<close>: one row per slot \<open>j\<close> whose score exceeds one half, with the class
  \<open>j div max_overlaps\<close> and the three coordinates of slot \<open>j\<close> times
  \<open>max_loc_value\<close>, in slot order.
\<close>

definition active_rows :: "real \<Rightarrow> nat \<Rightarrow> nat \<Rightarrow> real list \<Rightarrow> real list \<Rightarrow> submission_row list" where
  "active_rows max_loc_value max_overlaps i c l =
     map (\<lambda>js. case js of (j, s) \<Rightarrow>
            (i, j div max_overlaps,
             l ! (j * 3) * max_loc_value,
             l ! (j * 3 + 1) * max_loc_value,
             l ! (j * 3 + 2) * max_loc_value))
       (filter (\<lambda>js. 1 / 2 < snd js) (enumerate 0 c))"

section \<open>Arrays\<close>

text \<open>
  A numpy array of floats with two or with three axes: its shape and its entries in
  row-major order. The waveform segmenter takes arrays (channels, samples); the paired
  segmenter takes a spectrogram (channels, frequencies, time) and a label matrix
  (frames, features).
\<close>

record array2 =
  rows2 :: nat
  cols2 :: nat
  flat2 :: "real list"

record array3 =
  dim0 :: nat
  dim1 :: nat
  dim2 :: nat
  flat3 :: "real list"



text \<open>The \<open>r\<close>-th line of \<open>n\<close> entries along the last axis.\<close>

definition line :: "nat \<Rightarrow> real list \<Rightarrow> nat \<Rightarrow> real list" where
  "line n xs r = take n (drop (r * n) xs)"



text \<open>
  \<^verbatim>\<open>np.arange(0, stop, step)\<close> on Python integers: the values \<open>0, step, 2 * step, ...\<close>
  below \<open>stop\<close>; none for a negative step, and a zero step raises.
\<close>

function arange_from :: "nat \<Rightarrow> nat \<Rightarrow> nat \<Rightarrow> nat list" where
  "arange_from cur stop step =
     (if 0 < step \<and> cur < stop then cur # arange_from (cur + step) stop step else [])"
  by pat_completeness auto
termination
  by (relation "measure (\<lambda>(cur, stop, step). stop - cur)") auto

definition np_arange :: "nat \<Rightarrow> int \<Rightarrow> error + nat list" where
  "np_arange stop step =
     (if step = 0 then Inl ZeroDivisionError
      else if step < 0 then Inr []
      else Inr (arange_from 0 stop (nat step)))"

text \<open>
  The slice \<^verbatim>\<open>a[..., s:e]\<close> of the last axis, for \<open>count\<close> lines of \<open>n\<close> entries:
  Python clips both bounds to the axis.
\<close>

definition slice_lines :: "nat \<Rightarrow> nat \<Rightarrow> nat \<Rightarrow> nat \<Rightarrow> real list \<Rightarrow> real list" where
  "slice_lines count n s e xs =
     concat (map (\<lambda>r. take (e - s) (drop s (line n xs r))) [0..<count])"


definition slice3 :: "array3 \<Rightarrow> nat \<Rightarrow> nat \<Rightarrow> array3" where
  "slice3 a s e =
     \<lparr>dim0 = dim0 a, dim1 = dim1 a,
      dim2 = min e (dim2 a) - min s (dim2 a),
      flat3 = slice_lines (dim0 a * dim1 a) (dim2 a) s e (flat3 a)\<rparr>"

text \<open>
  The local \<^verbatim>\<open>pad(x, d)\<close> of both segmenters: zeros of last axis \<open>d\<close>, then
  \<^verbatim>\<open>pad[..., :x.shape[-1]] = x\<close>. When \<open>x\<close> is longer than \<open>d\<close> the
  target of the assignment has only \<open>d\<close> columns and numpy refuses to broadcast,
  unless \<open>x\<close> has a single column (then \<open>d = 0\<close> and nothing is stored).
\<close>

definition pad_lines :: "nat \<Rightarrow> nat \<Rightarrow> nat \<Rightarrow> real list \<Rightarrow> real list" where
  "pad_lines count k d xs =
     concat (map (\<lambda>r. line k xs r @ replicate (d - k) 0) [0..<count])"


definition zero_pad3 :: "array3 \<Rightarrow> nat \<Rightarrow> array3" where
  "zero_pad3 x d =
     \<lparr>dim0 = dim0 x, dim1 = dim1 x, dim2 = d,
      flat3 = pad_lines (dim0 x * dim1 x) (dim2 x) d (flat3 x)\<rparr>"

definition broadcast_message :: string where
  "broadcast_message = ''could not broadcast input array''"


definition pad3 :: "array3 \<Rightarrow> nat \<Rightarrow> error + array3" where
  "pad3 x d =
     (if dim2 x \<le> d then Inr (zero_pad3 x d)
      else if dim2 x = 1 then Inr \<lparr>dim0 = dim0 x, dim1 = dim1 x, dim2 = d, flat3 = []\<rparr>
      else Inl (ValueError broadcast_message))"

section \<open>The waveform segmenter \<^verbatim>\<open>segment_waveforms\<close>\<close>


text \<open>
  The number of multiples of \<open>step\<close> below \<open>n\<close>, that is \<open>n / step\<close> rounded up.
\<close>

definition n_cuts :: "nat \<Rightarrow> nat \<Rightarrow> nat" where
  "n_cuts n step = (n + step - 1) div step"

text \<open>Line 259: the cut points \<^verbatim>\<open>np.arange(0, predictors.shape[-1], length)\<close>.\<close>

definition cuts_waveforms_of :: "array2 \<Rightarrow> nat \<Rightarrow> error + nat list" where
  "cuts_waveforms_of predictors len = np_arange (cols2 predictors) (int len)"




section \<open>The paired segmenter \<^verbatim>\<open>segment_task2\<close>\<close>

text \<open>
  Line 287: \<^verbatim>\<open>target.reshape(1, target.shape[-1], target.shape[0])\<close>. A reshape
  keeps the entries in their row-major order and only changes the shape.
\<close>

definition reshape_target :: "array2 \<Rightarrow> array3" where
  "reshape_target target =
     \<lparr>dim0 = 1, dim1 = cols2 target, dim2 = rows2 target, flat3 = flat2 target\<rparr>"

text \<open>Line 308: \<^verbatim>\<open>np.reshape(cut_y, (cut_y.shape[-1], cut_y.shape[1]))\<close>.\<close>

definition reshape_back :: "array3 \<Rightarrow> array2" where
  "reshape_back cut_y = \<lparr>rows2 = dim2 cut_y, cols2 = dim1 cut_y, flat2 = flat3 cut_y\<rparr>"

text \<open>Lines 296 to 308: the chunk pair of iteration \<open>i\<close>.\<close>

definition task2_chunk ::
  "array3 \<Rightarrow> array3 \<Rightarrow> nat \<Rightarrow> nat \<Rightarrow> nat list \<Rightarrow> nat list \<Rightarrow> nat \<Rightarrow>
   error + (array3 \<times> array2)" where
  "task2_chunk predictors target3 predictors_len_segment target_len_segment
     cuts_predictors cuts_target i =
     ebind (py_get cuts_predictors i) (\<lambda>start_p.
     ebind (py_get cuts_target i) (\<lambda>start_t.
       (let end_p = start_p + predictors_len_segment;
            end_t = start_t + target_len_segment
        in
          if end_p \<le> dim2 predictors then
            Inr (slice3 predictors start_p end_p,
                 reshape_back (slice3 target3 start_t end_t))
          else
            ebind (pad3 (slice3 predictors start_p (dim2 predictors))
                     predictors_len_segment) (\<lambda>cut_x.
            ebind (pad3 (slice3 target3 start_t (dim2 target3))
                     target_len_segment) (\<lambda>cut_y.
              Inr (cut_x, reshape_back cut_y))))))"

text \<open>
  The two lists of cut points, lines 288 and 289. The stride is \<^verbatim>\<open>int\<close> of the
  product of the segment length and the overlap, a product of doubles.
\<close>

definition cuts_predictors_of ::
  "float_ops \<Rightarrow> array3 \<Rightarrow> nat \<Rightarrow> real \<Rightarrow> error + nat list" where
  "cuts_predictors_of fl predictors predictors_len_segment overlap =
     np_arange (dim2 predictors) (py_int (fmul fl (real predictors_len_segment) overlap))"

definition cuts_target_of ::
  "float_ops \<Rightarrow> array2 \<Rightarrow> nat \<Rightarrow> real \<Rightarrow> error + nat list" where
  "cuts_target_of fl target target_len_segment overlap =
     np_arange (dim2 (reshape_target target)) (py_int (fmul fl (real target_len_segment) overlap))"

definition mismatch_message :: string where
  "mismatch_message =
     ''Predictors and test frames should be selected to produce the same amount of frames''"

text \<open>Lines 287 to 316. The segment lengths are numbers of frames, the overlap a float.\<close>

definition segment_task2 ::
  "float_ops \<Rightarrow> array3 \<Rightarrow> array2 \<Rightarrow> nat \<Rightarrow> nat \<Rightarrow> real \<Rightarrow>
   error + (array3 list \<times> array2 list)" where
  "segment_task2 fl predictors target predictors_len_segment target_len_segment overlap =
     ebind (cuts_predictors_of fl predictors predictors_len_segment overlap) (\<lambda>cuts_predictors.
     ebind (cuts_target_of fl target target_len_segment overlap) (\<lambda>cuts_target.
       if length cuts_predictors \<noteq> length cuts_target
       then Inl (ValueError mismatch_message)
       else
         ebind (emap (task2_chunk predictors (reshape_target target)
                        predictors_len_segment target_len_segment cuts_predictors cuts_target)
                  [0..<length cuts_predictors]) (\<lambda>chunks.
           Inr (map fst chunks, map snd chunks))))"

section \<open>The shapes in \<^verbatim>\<open>spectrum_fast\<close>\<close>

text \<open>
  \<^verbatim>\<open>spectrum_fast\<close> calls \<^verbatim>\<open>scipy.signal.stft\<close> and then only concatenates and
  slices, so whether it raises is decided by the shape of the transform. The transform
  replaces the last axis of the signal by a frequency axis and a time axis; the two
  sizes are parameters here.
\<close>

definition stft_shape :: "nat list \<Rightarrow> nat \<Rightarrow> nat \<Rightarrow> nat list" where
  "stft_shape x_shape n_freq n_time = butlast x_shape @ [n_freq, n_time]"

text \<open>Line 72: \<^verbatim>\<open>np.concatenate((output, phase), axis=-3)\<close> of two arrays of one shape.\<close>

definition concatenate_axis_m3 :: "nat list \<Rightarrow> error + nat list" where
  "concatenate_axis_m3 sh =
     (if length sh < 3 then Inl AxisError
      else Inr (sh[length sh - 3 := 2 * (sh ! (length sh - 3))]))"

text \<open>Line 75: \<^verbatim>\<open>output[:,1:,:]\<close>; three indices need three axes.\<close>

definition cut_dc_shape :: "nat list \<Rightarrow> error + nat list" where
  "cut_dc_shape sh = (if length sh < 3 then Inl IndexError else Inr (sh[1 := sh ! 1 - 1]))"

text \<open>Line 78: \<^verbatim>\<open>output[:,:,:-1]\<close>.\<close>

definition cut_last_shape :: "nat list \<Rightarrow> error + nat list" where
  "cut_last_shape sh = (if length sh < 3 then Inl IndexError else Inr (sh[2 := sh ! 2 - 1]))"

text \<open>Lines 68 to 81, on the shape of \<^verbatim>\<open>seg_stft\<close>.\<close>

definition spectrum_fast_shape :: "nat list \<Rightarrow> bool \<Rightarrow> bool \<Rightarrow> bool \<Rightarrow> error + nat list" where
  "spectrum_fast_shape seg_stft_shape cut_dc output_phase cut_last_timeframe =
     ebind (if output_phase then concatenate_axis_m3 seg_stft_shape else Inr seg_stft_shape)
       (\<lambda>s1.
     ebind (if cut_dc then cut_dc_shape s1 else Inr s1) (\<lambda>s2.
       if cut_last_timeframe then cut_last_shape s2 else Inr s2))"

section \<open>Basic facts about the error plumbing\<close>

lemma ebind_Inl [simp]: "ebind (Inl e) f = Inl e"
  by (simp add: ebind_def)

lemma ebind_Inr [simp]: "ebind (Inr v) f = f v"
  by (simp add: ebind_def)

section \<open>The encoder on concrete annotations\<close>

text \<open>
  C1. Two events of the first class, both inside the only frame. The first takes
  presence slot 0 and location slot 0. For the second the presence chain reaches
  slot 1, but the location chain tests \<^verbatim>\<open>loc_vec[j][ind_class+1]\<close>, the y entry
  that the first event has just filled, so the coordinates (4, 5, 6) go to location
  slot 2: the row is presence (1, 1, 0) with locations (1, 2, 3), (0, 0, 0), (4, 5, 6).
  The filled presence slot 1 has no coordinates and the coordinates in slot 2 have no
  presence.
\<close>

theorem get_label_task2_second_event_slot:
  "get_label_task2 exact
     [\<lparr>Start_col = 1 / 5, End_col = 4 / 5, Class_col = ''dog'',
        X_col = 1, Y_col = 2, Z_col = 3\<rparr>,
      \<lparr>Start_col = 3 / 10, End_col = 7 / 10, Class_col = ''dog'',
        X_col = 4, Y_col = 5, Z_col = 6\<rparr>]
     1 1 [''dog''] 1 1
   = Inr [[1, 1, 0, 1, 2, 3, 0, 0, 0, 4, 5, 6]]"
  by code_simp

text \<open>
  C2. The event (0.0, 0.5, dog, 1, 0, 0) with frame step 0.1, duration 1.0 and maximal
  distance 2.0: only frames 1, 2 and 3 carry the presence and the location (0.5, 0, 0).
  Frame 0 is the window (0, 0.1) and frame 4 the window (0.4, 0.5); the event starts
  where frame 0 starts and ends where frame 4 ends, and every comparison of the three
  overlap conditions is strict, so both frames stay empty.
\<close>

theorem get_label_task2_boundary_frames:
  "get_label_task2 exact
     [\<lparr>Start_col = 0, End_col = 1 / 2, Class_col = ''dog'',
        X_col = 1, Y_col = 0, Z_col = 0\<rparr>]
     (1 / 10) 1 [''dog''] 10 2
   = Inr [[0, 0, 0, 0, 0, 0, 0, 0, 0, 0, 0, 0],
          [1, 0, 0, 1 / 2, 0, 0, 0, 0, 0, 0, 0, 0],
          [1, 0, 0, 1 / 2, 0, 0, 0, 0, 0, 0, 0, 0],
          [1, 0, 0, 1 / 2, 0, 0, 0, 0, 0, 0, 0, 0],
          [0, 0, 0, 0, 0, 0, 0, 0, 0, 0, 0, 0],
          [0, 0, 0, 0, 0, 0, 0, 0, 0, 0, 0, 0],
          [0, 0, 0, 0, 0, 0, 0, 0, 0, 0, 0, 0],
          [0, 0, 0, 0, 0, 0, 0, 0, 0, 0, 0, 0],
          [0, 0, 0, 0, 0, 0, 0, 0, 0, 0, 0, 0],
          [0, 0, 0, 0, 0, 0, 0, 0, 0, 0, 0, 0]]"
  by code_simp

text \<open>
  C3. Encoding two concurrent events of one class (fewer than the three slots) and
  decoding the result with the same constants gives two rows of class 0 for frame 0,
  but the second row carries the location (0, 0, 0) instead of (4, 5, 6): the
  coordinates of the second event were stored in location slot 2, whose presence is 0.
\<close>

theorem encode_decode_second_event_location:
  "encode_decode exact
     [\<lparr>Start_col = 1 / 5, End_col = 4 / 5, Class_col = ''dog'',
        X_col = 1, Y_col = 2, Z_col = 3\<rparr>,
      \<lparr>Start_col = 3 / 10, End_col = 7 / 10, Class_col = ''dog'',
        X_col = 4, Y_col = 5, Z_col = 6\<rparr>]
     1 1 [''dog''] 1 2
   = Inr [(0, 0, 1, 2, 3), (0, 0, 0, 0, 0)]"
  by code_simp

section \<open>The encoder never raises\<close>

lemma keys_dict_set: "fst ` set (dict_set d k v) = insert k (fst ` set d)"
proof (induction d)
  case Nil
  show ?case by simp
next
  case (Cons p d)
  obtain k' v' where p: "p = (k', v')" by (cases p)
  show ?case
  proof (cases "k' = k")
    case True
    then show ?thesis using p by simp
  next
    case False
    then show ?thesis using p Cons.IH by (simp add: insert_commute)
  qed
qed

lemma keys_foldl_dict_set:
  "fst ` set (foldl (\<lambda>d c. dict_set d c []) d0 cs) = fst ` set d0 \<union> set cs"
  by (induction cs arbitrary: d0) (auto simp: keys_dict_set)

lemma dict_append_ok:
  assumes "k \<in> fst ` set d"
  shows "\<exists>d'. dict_append d k v = Inr d' \<and> fst ` set d' = fst ` set d"
proof -
  from assms obtain l where "map_of d k = Some l"
    by (cases "map_of d k") (auto simp: map_of_eq_None_iff)
  then show ?thesis using assms by (auto simp: dict_append_def keys_dict_set)
qed

lemma efold_dict_append_ok:
  "\<forall>r\<in>set rs. g r \<in> fst ` set d \<Longrightarrow>
   \<exists>d'. efold (\<lambda>data d'. dict_append d' (g data) (h data)) rs d = Inr d' \<and>
        fst ` set d' = fst ` set d"
proof (induction rs arbitrary: d)
  case Nil
  then show ?case by simp
next
  case (Cons r rs)
  then obtain d1 where d1: "dict_append d (g r) (h r) = Inr d1" "fst ` set d1 = fst ` set d"
    using dict_append_ok [of "g r" d "h r"] by auto
  with Cons.prems have "\<forall>r\<in>set rs. g r \<in> fst ` set d1" by simp
  from Cons.IH [OF this] d1 show ?case by simp
qed

lemma efold_classes_ok:
  "set cs \<subseteq> fst ` set d \<Longrightarrow>
   \<exists>d'. efold (\<lambda>class_name d. efold (\<lambda>data d'. dict_append d' (g data) (h data))
             (filter (\<lambda>r. g r = class_name) df) d) cs d = Inr d' \<and>
        fst ` set d' = fst ` set d"
proof (induction cs arbitrary: d)
  case Nil
  then show ?case by simp
next
  case (Cons c cs)
  have "\<forall>r\<in>set (filter (\<lambda>r. g r = c) df). g r \<in> fst ` set d" using Cons.prems by auto
  from efold_dict_append_ok [OF this, of h] obtain d1 where
    d1: "efold (\<lambda>data d'. dict_append d' (g data) (h data)) (filter (\<lambda>r. g r = c) df) d = Inr d1"
      "fst ` set d1 = fst ` set d" by blast
  with Cons.prems have "set cs \<subseteq> fst ` set d1" by simp
  from Cons.IH [OF this] d1 show ?case by simp
qed

lemma build_class_dict_ok:
  "\<exists>d. build_class_dict df classes_names = Inr d \<and> fst ` set d = set classes_names"
proof -
  let ?d0 = "foldl (\<lambda>d class_name. dict_set d class_name [])
               ([] :: (string \<times> event list) list) classes_names"
  have k0: "fst ` set ?d0 = set classes_names" by (simp add: keys_foldl_dict_set)
  have sub: "set classes_names \<subseteq> fst ` set ?d0" unfolding k0 by (rule subset_refl)
  have "\<exists>d. build_class_dict df classes_names = Inr d \<and> fst ` set d = fst ` set ?d0"
    unfolding build_class_dict_def by (rule efold_classes_ok [OF sub])
  then show ?thesis unfolding k0 .
qed

lemma same_but_refl: "same_but j st st"
  by (simp add: same_but_def)

lemma same_but_trans: "same_but j a b \<Longrightarrow> same_but j b c \<Longrightarrow> same_but j a c"
  by (simp add: same_but_def)

lemma list_all_update: "list_all P xs \<Longrightarrow> P v \<Longrightarrow> list_all P (xs[j := v])"
  using set_update_subset_insert [of xs j v] by (auto simp: list_all_iff)

lemma mark_class_ok:
  "ind + 2 < length cv \<Longrightarrow> \<exists>cv'. mark_class ind cv = Inr cv' \<and> length cv' = length cv"
  by (simp add: mark_class_def py_get_def py_set_def)

lemma write3_ok:
  "b + 2 < length lv \<Longrightarrow>
   write3 lv b x y z = Inr (lv[b := Some x, b + 1 := Some y, b + 2 := Some z])"
  by (simp add: write3_def py_set_def)

lemma mark_loc_ok:
  "ind * 3 + 8 < length lv \<Longrightarrow> \<exists>lv'. mark_loc ind x y z lv = Inr lv' \<and> length lv' = length lv"
  by (simp add: mark_loc_def py_get_def write3_ok)

lemma index_of_ok: "c \<in> set cs \<Longrightarrow> \<exists>idx. index_of cs c = Inr idx \<and> idx < length cs"
  by (induction cs) auto

lemma encode_event_ok:
  assumes "j < F" "clas \<in> set classes_names" "shape_ok F (length classes_names) st"
  shows "\<exists>st'. encode_event j s e classes_names clas data st = Inr st' \<and>
           shape_ok F (length classes_names) st' \<and> same_but j st st'"
proof -
  obtain class_vec loc_vec where st: "st = (class_vec, loc_vec)" by (cases st)
  obtain sa ea x y z where data: "data = (sa, ea, x, y, z)" by (cases data)
  show ?thesis
  proof (cases "is_in sa ea s e")
    case False
    then show ?thesis using assms(3) st data by (simp add: encode_event_def same_but_refl)
  next
    case True
    from index_of_ok [OF assms(2)] obtain idx where
      idx: "index_of classes_names clas = Inr idx" "idx < length classes_names" by blast
    have lens: "length class_vec = F" "length loc_vec = F"
      "length (class_vec ! j) = length classes_names * 3"
      "length (loc_vec ! j) = length classes_names * 9"
      using assms(1,3) st by (auto simp: shape_ok_def list_all_length)
    have "idx * 3 + 2 < length (class_vec ! j)" using idx(2) lens(3) by simp
    from mark_class_ok [OF this] obtain cv' where
      cv': "mark_class (idx * 3) (class_vec ! j) = Inr cv'" "length cv' = length (class_vec ! j)"
      by blast
    have "idx * 3 * 3 + 8 < length (loc_vec ! j)" using idx(2) lens(4) by simp
    from mark_loc_ok [OF this, of x y z] obtain lv' where
      lv': "mark_loc (idx * 3) x y z (loc_vec ! j) = Inr lv'" "length lv' = length (loc_vec ! j)"
      by blast
    have res: "encode_event j s e classes_names clas data st =
               Inr (class_vec[j := cv'], loc_vec[j := lv'])"
      using True st data idx(1) cv'(1) lv'(1) lens(1,2) assms(1)
      by (simp add: encode_event_def py_get_def)
    have "shape_ok F (length classes_names) (class_vec[j := cv'], loc_vec[j := lv'])"
      using assms(3) st cv'(2) lv'(2) lens
      by (simp add: shape_ok_def list_all_update)
    moreover have "same_but j st (class_vec[j := cv'], loc_vec[j := lv'])"
      using st by (simp add: same_but_def)
    ultimately show ?thesis using res by blast
  qed
qed

lemma efold_events_ok:
  assumes "j < F" "clas \<in> set classes_names"
  shows "shape_ok F (length classes_names) st \<Longrightarrow>
         \<exists>st'. efold (encode_event j s e classes_names clas) data_list st = Inr st' \<and>
           shape_ok F (length classes_names) st' \<and> same_but j st st'"
proof (induction data_list arbitrary: st)
  case Nil
  then show ?case by (simp add: same_but_refl)
next
  case (Cons data data_list)
  from encode_event_ok [OF assms Cons.prems, of s e data] obtain st1 where
    st1: "encode_event j s e classes_names clas data st = Inr st1"
      "shape_ok F (length classes_names) st1" "same_but j st st1" by blast
  from Cons.IH [OF st1(2)] obtain st2 where
    st2: "efold (encode_event j s e classes_names clas) data_list st1 = Inr st2"
      "shape_ok F (length classes_names) st2" "same_but j st1 st2" by blast
  show ?case using st1 st2 same_but_trans [OF st1(3) st2(3)] by simp
qed

lemma efold_dict_ok:
  assumes "j < F"
  shows "fst ` set class_dict \<subseteq> set classes_names \<Longrightarrow> shape_ok F (length classes_names) st \<Longrightarrow>
         \<exists>st'. efold (\<lambda>entry. case entry of (clas, data_list) \<Rightarrow>
                    efold (encode_event j s e classes_names clas) data_list) class_dict st = Inr st' \<and>
           shape_ok F (length classes_names) st' \<and> same_but j st st'"
proof (induction class_dict arbitrary: st)
  case Nil
  then show ?case by (simp add: same_but_refl)
next
  case (Cons entry class_dict)
  obtain clas data_list where entry: "entry = (clas, data_list)" by (cases entry)
  have "clas \<in> set classes_names" using Cons.prems(1) entry by simp
  from efold_events_ok [OF assms this Cons.prems(2), of s e data_list] obtain st1 where
    st1: "efold (encode_event j s e classes_names clas) data_list st = Inr st1"
      "shape_ok F (length classes_names) st1" "same_but j st st1" by blast
  have "fst ` set class_dict \<subseteq> set classes_names" using Cons.prems(1) by simp
  from Cons.IH [OF this st1(2)] obtain st2 where
    st2: "efold (\<lambda>entry. case entry of (clas, data_list) \<Rightarrow>
                    efold (encode_event j s e classes_names clas) data_list) class_dict st1 = Inr st2"
      "shape_ok F (length classes_names) st2" "same_but j st1 st2" by blast
  show ?case using entry st1 st2 same_but_trans [OF st1(3) st2(3)] by simp
qed

lemma fill_none_filled: "None \<notin> set (fill_none row)"
  by (auto simp: fill_none_def)

lemma length_fill_none: "length (fill_none row) = length row"
  by (simp add: fill_none_def)

lemma encode_frame_ok:
  assumes "j < F" "fst ` set class_dict \<subseteq> set classes_names"
    "shape_ok F (length classes_names) st"
  shows "\<exists>st'. encode_frame fl frame_len classes_names class_dict (j, i) st = Inr st' \<and>
           shape_ok F (length classes_names) st' \<and> same_but j st st' \<and>
           None \<notin> set (fst st' ! j) \<and> None \<notin> set (snd st' ! j)"
proof -
  from efold_dict_ok [OF assms, of "fsub fl i frame_len" i] obtain st1 where
    st1: "efold (\<lambda>entry. case entry of (clas, data_list) \<Rightarrow>
            efold (encode_event j (fsub fl i frame_len) i classes_names clas) data_list) class_dict st = Inr st1"
      "shape_ok F (length classes_names) st1" "same_but j st st1" by blast
  obtain class_vec loc_vec where cl: "st1 = (class_vec, loc_vec)" by (cases st1)
  have lens: "length class_vec = F" "length loc_vec = F"
    "list_all (\<lambda>cv. length cv = length classes_names * 3) class_vec"
    "list_all (\<lambda>lv. length lv = length classes_names * 9) loc_vec"
    using st1(2) cl by (simp_all add: shape_ok_def)
  let ?st' = "(class_vec[j := fill_none (class_vec ! j)], loc_vec[j := fill_none (loc_vec ! j)])"
  have res: "encode_frame fl frame_len classes_names class_dict (j, i) st = Inr ?st'"
    using st1(1) cl lens(1,2) assms(1) by (simp add: encode_frame_def py_get_def)
  have rows: "length (class_vec ! j) = length classes_names * 3"
    "length (loc_vec ! j) = length classes_names * 9"
    using lens assms(1) by (simp_all add: list_all_length)
  have "shape_ok F (length classes_names) ?st'"
    using lens rows by (simp add: shape_ok_def list_all_update length_fill_none)
  moreover have "same_but j st1 ?st'" using cl by (simp add: same_but_def)
  then have "same_but j st ?st'" using st1(3) same_but_trans by blast
  moreover have "None \<notin> set (fst ?st' ! j)" "None \<notin> set (snd ?st' ! j)"
    using lens(1,2) assms(1) by (simp_all add: fill_none_filled)
  ultimately show ?thesis using res by blast
qed


lemma efold_frames_ok:
  assumes "fst ` set class_dict \<subseteq> set classes_names"
  shows "a + length frames \<le> F \<Longrightarrow> shape_ok F (length classes_names) st \<Longrightarrow>
         (\<forall>k<a. None \<notin> set (fst st ! k) \<and> None \<notin> set (snd st ! k)) \<Longrightarrow>
         \<exists>st'. efold (encode_frame fl frame_len classes_names class_dict) (enumerate a frames) st = Inr st' \<and>
           shape_ok F (length classes_names) st' \<and>
           (\<forall>k<a + length frames. None \<notin> set (fst st' ! k) \<and> None \<notin> set (snd st' ! k))"
proof (induction frames arbitrary: a st)
  case Nil
  then show ?case by simp
next
  case (Cons i frames)
  have a: "a < F" and rest: "Suc a + length frames \<le> F" using Cons.prems(1) by simp_all
  from encode_frame_ok [OF a assms Cons.prems(2), of fl frame_len i] obtain st1 where
    st1: "encode_frame fl frame_len classes_names class_dict (a, i) st = Inr st1"
      "shape_ok F (length classes_names) st1" "same_but a st st1"
      "None \<notin> set (fst st1 ! a)" "None \<notin> set (snd st1 ! a)" by blast
  have filled: "\<forall>k<Suc a. None \<notin> set (fst st1 ! k) \<and> None \<notin> set (snd st1 ! k)"
  proof (intro allI impI)
    fix k assume "k < Suc a"
    show "None \<notin> set (fst st1 ! k) \<and> None \<notin> set (snd st1 ! k)"
    proof (cases "k = a")
      case True
      then show ?thesis using st1(4,5) by simp
    next
      case False
      with \<open>k < Suc a\<close> have "k < a" by simp
      then show ?thesis using Cons.prems(3) st1(3) False by (simp add: same_but_def)
    qed
  qed
  from Cons.IH [OF rest st1(2) filled] obtain st2 where
    st2: "efold (encode_frame fl frame_len classes_names class_dict) (enumerate (Suc a) frames) st1 = Inr st2"
      "shape_ok F (length classes_names) st2"
      "\<forall>k<Suc a + length frames. None \<notin> set (fst st2 ! k) \<and> None \<notin> set (snd st2 ! k)" by blast
  show ?case using st1(1) st2 by simp
qed

lemma emap_total: "\<forall>x\<in>set xs. f x = Inr (g x) \<Longrightarrow> emap f xs = Inr (map g xs)"
  by (induction xs) simp_all

lemma emap_to_float: "None \<notin> set row \<Longrightarrow> emap to_float row = Inr (map the row)"
proof (rule emap_total, rule ballI)
  fix v assume "None \<notin> set row" "v \<in> set row"
  then have "v \<noteq> None" by metis
  then show "to_float v = Inr (the v)" by (cases v) (simp_all add: to_float_def)
qed

lemma emap_int_to_float:
  "None \<notin> set row \<Longrightarrow> emap int_to_float row = Inr (map (\<lambda>v. of_int (the v)) row)"
proof (rule emap_total, rule ballI)
  fix v assume "None \<notin> set row" "v \<in> set row"
  then have "v \<noteq> None" by metis
  then show "int_to_float v = Inr (real_of_int (the v))" by (cases v) (simp_all add: int_to_float_def)
qed

lemma stack_labels_ok:
  assumes "0 < F" "shape_ok F n st"
    "\<forall>k<F. None \<notin> set (fst st ! k) \<and> None \<notin> set (snd st ! k)"
  shows "\<exists>rows. stack_labels fl (fst st) (snd st) m = Inr rows \<and> length rows = F \<and>
           list_all (\<lambda>row. length row = n * 12) rows"
proof -
  let ?cl = "map (map (\<lambda>v. real_of_int (the v))) (fst st)"
  let ?loc = "map (map the) (snd st)"
  let ?rows = "map2 (\<lambda>c l. c @ map (\<lambda>v. fdiv fl v m) l) ?cl ?loc"
  have lens: "length (fst st) = F" "length (snd st) = F" using assms(2) by (simp_all add: shape_ok_def)
  have "\<forall>row\<in>set (snd st). None \<notin> set row" using assms(3) lens by (auto simp: in_set_conv_nth)
  then have loc: "emap (emap to_float) (snd st) = Inr ?loc"
    by (intro emap_total) (simp add: emap_to_float)
  have "\<forall>row\<in>set (fst st). None \<notin> set row" using assms(3) lens by (auto simp: in_set_conv_nth)
  then have cl: "emap (emap int_to_float) (fst st) = Inr ?cl"
    by (intro emap_total) (simp add: emap_int_to_float)
  have ne: "fst st \<noteq> []" using assms(1) lens by auto
  have res: "stack_labels fl (fst st) (snd st) m = Inr ?rows"
    using ne loc cl by (simp add: stack_labels_def)
  have len: "length ?rows = F" using lens by simp
  have "\<forall>k<length ?rows. length (?rows ! k) = n * 12"
  proof (intro allI impI)
    fix k assume "k < length ?rows"
    then have k: "k < F" using lens by simp
    have "length (fst st ! k) = n * 3" "length (snd st ! k) = n * 9"
      using assms(2) k by (simp_all add: shape_ok_def list_all_length)
    then show "length (?rows ! k) = n * 12" using k lens by simp
  qed
  then have "list_all (\<lambda>row. length row = n * 12) ?rows" by (simp add: list_all_length)
  then show ?thesis using res len by blast
qed

lemma get_label_task2_total:
  assumes "frame_len \<noteq> 0" "nat \<lceil>fdiv fl (fsub fl (fadd fl file_size frame_len) frame_len) frame_len\<rceil> = num_frames" "0 < num_frames"
  shows "\<exists>rows. get_label_task2 fl df frame_len file_size classes_names num_frames max_label_distance = Inr rows \<and>
           length rows = num_frames \<and> list_all (\<lambda>row. length row = length classes_names * 12) rows"
proof -
  let ?n = "length classes_names"
  let ?st0 = "(replicate num_frames (replicate (?n * 3) (None :: int option)),
               replicate num_frames (replicate (?n * 9) (None :: real option)))"
  let ?frames = "map (arange_value fl frame_len frame_len) [0..<num_frames]"
  from build_class_dict_ok [of df classes_names] obtain class_dict where
    cd: "build_class_dict df classes_names = Inr class_dict" "fst ` set class_dict = set classes_names"
    by blast
  have fr: "np_arange_real fl frame_len (fadd fl file_size frame_len) frame_len = Inr ?frames"
    using assms(1,2) by (simp add: np_arange_real_def)
  have s0: "shape_ok num_frames ?n ?st0" by (simp add: shape_ok_def list_all_length)
  have keys: "fst ` set class_dict \<subseteq> set classes_names" using cd(2) by simp
  from efold_frames_ok [OF keys, of 0 ?frames num_frames ?st0 fl frame_len] s0 obtain st' where
    st': "efold (encode_frame fl frame_len classes_names class_dict) (enumerate 0 ?frames) ?st0 = Inr st'"
      "shape_ok num_frames ?n st'"
      "\<forall>k<num_frames. None \<notin> set (fst st' ! k) \<and> None \<notin> set (snd st' ! k)"
    by auto
  from stack_labels_ok [OF assms(3) st'(2,3), of fl max_label_distance] obtain rows where
    rows: "stack_labels fl (fst st') (snd st') max_label_distance = Inr rows" "length rows = num_frames"
      "list_all (\<lambda>row. length row = ?n * 12) rows" by blast
  have "get_label_task2 fl df frame_len file_size classes_names num_frames max_label_distance = Inr rows"
    using cd(1) fr st'(1) rows(1) by (simp add: get_label_task2_def Let_def enumerate_py_def)
  then show ?thesis using rows(2,3) by blast
qed


lemma write_sound_full:
  assumes "f < length cl" "class_id < length (cl ! f)" "cl ! f ! class_id = replicate max_overlap 1"
  shows "write_sound class_id x y z f (cl, loc) = Inl IndexError"
proof -
  have "sum_list (replicate max_overlap (1::real)) = real max_overlap"
    by (induction max_overlap) simp_all
  then show ?thesis using assms by (simp add: write_sound_def py_get_def py_set_def py_int_def Let_def)
qed

subsection \<open>What the encoder writes\<close>

lemma dict_set_fresh: "k \<notin> fst ` set d \<Longrightarrow> dict_set d k v = d @ [(k, v)]"
proof (induction d)
  case Nil
  show ?case by simp
next
  case (Cons p d)
  obtain k' v' where p: "p = (k', v')" by (cases p)
  then have "k' \<noteq> k" and "k \<notin> fst ` set d" using Cons.prems by auto
  then show ?case using p Cons.IH by simp
qed

lemma foldl_dict_init:
  "distinct (ks @ cs) \<Longrightarrow>
   foldl (\<lambda>d cn. dict_set d cn v) (map (\<lambda>k. (k, v)) ks) cs = map (\<lambda>k. (k, v)) (ks @ cs)"
proof (induction cs arbitrary: ks)
  case Nil
  show ?case by simp
next
  case (Cons c cs)
  have d: "distinct ((ks @ [c]) @ cs)" and c: "c \<notin> set ks" using Cons.prems by simp_all
  show ?case
    using Cons.IH [OF d] c dict_set_fresh [of c "map (\<lambda>k. (k, v)) ks" v]
    by (simp add: image_image)
qed

lemma dict_set_map:
  "distinct ks \<Longrightarrow> cn \<in> set ks \<Longrightarrow>
   dict_set (map (\<lambda>k. (k, g k)) ks) cn v = map (\<lambda>k. (k, (g(cn := v)) k)) ks"
proof (induction ks)
  case Nil
  then show ?case by simp
next
  case (Cons k ks)
  show ?case
  proof (cases "k = cn")
    case True
    then have "cn \<notin> set ks" using Cons.prems(1) by simp
    then have "map (\<lambda>k. (k, g k)) ks = map (\<lambda>k. (k, (g(cn := v)) k)) ks"
      by (intro map_cong refl) auto
    then show ?thesis using True by simp
  next
    case False
    then show ?thesis using Cons by simp
  qed
qed

lemma map_of_map_key: "cn \<in> set ks \<Longrightarrow> map_of (map (\<lambda>k. (k, g k)) ks) cn = Some (g cn)"
  by (induction ks) auto

lemma dict_append_map:
  "distinct ks \<Longrightarrow> cn \<in> set ks \<Longrightarrow>
   dict_append (map (\<lambda>k. (k, g k)) ks) cn v =
   Inr (map (\<lambda>k. (k, (g(cn := g cn @ [v])) k)) ks)"
  by (simp add: dict_append_def map_of_map_key dict_set_map)

lemma efold_append_map:
  assumes "distinct ks" "cn \<in> set ks"
  shows "\<forall>r\<in>set rs. key r = cn \<Longrightarrow>
         efold (\<lambda>data d'. dict_append d' (key data) (h data)) rs (map (\<lambda>k. (k, g k)) ks) =
         Inr (map (\<lambda>k. (k, (g(cn := g cn @ map h rs)) k)) ks)"
proof (induction rs arbitrary: g)
  case Nil
  show ?case by simp
next
  case (Cons r rs)
  have key: "key r = cn" and rest: "\<forall>r\<in>set rs. key r = cn" using Cons.prems by simp_all
  have "dict_append (map (\<lambda>k. (k, g k)) ks) (key r) (h r) =
        Inr (map (\<lambda>k. (k, (g(cn := g cn @ [h r])) k)) ks)"
    using dict_append_map [OF assms] key by simp
  then show ?case using Cons.IH [OF rest, of "g(cn := g cn @ [h r])"] by simp
qed

lemma efold_classes_map:
  assumes "distinct ks"
  shows "set cs \<subseteq> set ks \<Longrightarrow> distinct cs \<Longrightarrow>
         efold (\<lambda>class_name d. efold (\<lambda>data d'. dict_append d' (key data) (h data))
                  (filter (\<lambda>r. key r = class_name) df) d) cs (map (\<lambda>k. (k, g k)) ks) =
         Inr (map (\<lambda>k. (k, if k \<in> set cs then g k @ map h (filter (\<lambda>r. key r = k) df) else g k)) ks)"
proof (induction cs arbitrary: g)
  case Nil
  show ?case by simp
next
  case (Cons c cs)
  let ?g1 = "g(c := g c @ map h (filter (\<lambda>r. key r = c) df))"
  have c: "c \<in> set ks" "c \<notin> set cs" and rest: "set cs \<subseteq> set ks" "distinct cs"
    using Cons.prems by simp_all
  have inner: "efold (\<lambda>data d'. dict_append d' (key data) (h data)) (filter (\<lambda>r. key r = c) df)
                 (map (\<lambda>k. (k, g k)) ks) = Inr (map (\<lambda>k. (k, ?g1 k)) ks)"
    using efold_append_map [OF assms c(1), of "filter (\<lambda>r. key r = c) df" key h g] by simp
  have "map (\<lambda>k. (k, if k \<in> set cs then ?g1 k @ map h (filter (\<lambda>r. key r = k) df) else ?g1 k)) ks =
        map (\<lambda>k. (k, if k \<in> set (c # cs) then g k @ map h (filter (\<lambda>r. key r = k) df) else g k)) ks"
    using c(2) by (intro map_cong refl) auto
  then show ?case using inner Cons.IH [OF rest, of ?g1] by simp
qed

lemma build_class_dict_distinct:
  assumes "distinct classes_names"
  shows "build_class_dict df classes_names =
         Inr (map (\<lambda>k. (k, class_events df k)) classes_names)"
proof -
  have init: "foldl (\<lambda>d class_name. dict_set d class_name [])
                ([] :: (string \<times> event list) list) classes_names =
              map (\<lambda>k. (k, [])) classes_names"
    using foldl_dict_init [of "[]" classes_names "[] :: event list"] assms by simp
  have "map (\<lambda>k. (k, if k \<in> set classes_names
                      then [] @ map (\<lambda>data. (Start_col data, End_col data, X_col data, Y_col data, Z_col data))
                                  (filter (\<lambda>r. Class_col r = k) df)
                      else [])) classes_names =
        map (\<lambda>k. (k, class_events df k)) classes_names"
    by (intro map_cong refl) (simp add: class_events_def)
  then show ?thesis
    unfolding build_class_dict_def init
    using efold_classes_map [OF assms subset_refl assms, of Class_col
        "\<lambda>data. (Start_col data, End_col data, X_col data, Y_col data, Z_col data)" df "\<lambda>k. []"]
    by simp
qed

lemma all_less_3: "(\<forall>k<3. P k) = (P 0 \<and> P 1 \<and> P (2::nat))"
proof
  assume a: "\<forall>k<3. P k"
  show "P 0 \<and> P 1 \<and> P 2" using a by simp
next
  assume a: "P 0 \<and> P 1 \<and> P 2"
  show "\<forall>k<3. P k"
  proof (intro allI impI)
    fix k :: nat assume "k < 3"
    then have "k = 0 \<or> k = 1 \<or> k = 2" by arith
    then show "P k" using a by auto
  qed
qed

lemma mark_class_cases:
  "ind + 2 < length cv \<Longrightarrow>
   mark_class ind cv =
   Inr (cv[(if cv ! ind = None then ind else if cv ! (ind + 1) = None then ind + 1 else ind + 2)
           := Some 1])"
  by (simp add: mark_class_def py_get_def py_set_def del: not_None_eq)

lemma mark_loc_cases:
  assumes "ind * 3 + 8 < length lv"
  shows "\<exists>b. mark_loc ind x y z lv = Inr (lv[b := Some x, b + 1 := Some y, b + 2 := Some z]) \<and>
           (if lv ! (ind * 3) = None then b = ind * 3 else b = ind * 3 + 3 \<or> b = ind * 3 + 6)"
proof (cases "lv ! (ind * 3) = None")
  case True
  then show ?thesis using assms by (simp add: mark_loc_def py_get_def write3_ok del: not_None_eq)
next
  case False
  show ?thesis
  proof (cases "lv ! (ind + 1) = None")
    case True
    have "mark_loc ind x y z lv =
          Inr (lv[ind * 3 + 3 := Some x, ind * 3 + 3 + 1 := Some y, ind * 3 + 3 + 2 := Some z])"
      using assms True False
      by (simp add: mark_loc_def py_get_def write3_ok add.commute del: not_None_eq)
    then show ?thesis using False by (intro exI [of _ "ind * 3 + 3"]) simp
  next
    case l1: False
    have "mark_loc ind x y z lv =
          Inr (lv[ind * 3 + 6 := Some x, ind * 3 + 6 + 1 := Some y, ind * 3 + 6 + 2 := Some z])"
      using assms l1 False
      by (simp add: mark_loc_def py_get_def write3_ok add.commute del: not_None_eq)
    then show ?thesis using False by (intro exI [of _ "ind * 3 + 6"]) simp
  qed
qed

lemma mark_class_frame:
  assumes "ind + 2 < length cv" "mark_class ind cv = Inr cv'" "q < ind \<or> ind + 2 < q"
  shows "cv' ! q = cv ! q"
  using assms(2,3) unfolding mark_class_cases [OF assms(1)] by (auto split: if_splits)

lemma mark_loc_frame:
  assumes "ind * 3 + 8 < length lv" "mark_loc ind x y z lv = Inr lv'" "q < ind * 3 \<or> ind * 3 + 8 < q"
  shows "lv' ! q = lv ! q"
proof -
  from mark_loc_cases [OF assms(1), of x y z] obtain b where
    b: "mark_loc ind x y z lv = Inr (lv[b := Some x, b + 1 := Some y, b + 2 := Some z])"
      "b = ind * 3 \<or> b = ind * 3 + 3 \<or> b = ind * 3 + 6" by (auto split: if_splits)
  have "q \<noteq> b" "q \<noteq> b + 1" "q \<noteq> b + 2" using b(2) assms(3) by auto
  then show ?thesis using b(1) assms(2) by auto
qed

lemma class_marked_own:
  assumes cm: "class_marked c evs cv lv" and len: "c * 3 + 2 < length cv" "c * 9 + 8 < length lv"
    and mc: "mark_class (c * 3) cv = Inr cv'" and ml: "mark_loc (c * 3) x y z lv = Inr lv'"
  shows "class_marked c (evs @ [(sa, ea, x, y, z)]) cv' lv'"
proof -
  have l9: "c * 3 * 3 + 8 < length lv" and c9: "c * 3 * 3 = c * 9" using len(2) by simp_all
  from mark_loc_cases [OF l9, of x y z] ml obtain b where
    lv': "lv' = lv[b := Some x, b + 1 := Some y, b + 2 := Some z]"
    and b: "if lv ! (c * 9) = None then b = c * 9 else b = c * 9 + 3 \<or> b = c * 9 + 6"
    unfolding c9 by auto
  have cv': "cv' = cv[(if cv ! (c * 3) = None then c * 3
                      else if cv ! (c * 3 + 1) = None then c * 3 + 1 else c * 3 + 2) := Some 1]"
    using mc unfolding mark_class_cases [OF len(1)] by simp
  have pres: "\<forall>k<3. cv' ! (c * 3 + k) = (if k < length (evs @ [(sa, ea, x, y, z)]) then Some 1 else None)"
  proof -
    consider "length evs = 0" | "length evs = 1" | "2 \<le> length evs" by arith
    then show ?thesis
    proof cases
      case 1
      then show ?thesis using cm len(1) unfolding cv' class_marked_def all_less_3 by simp
    next
      case 2
      then show ?thesis using cm len(1) unfolding cv' class_marked_def all_less_3 by simp
    next
      case 3
      then show ?thesis using cm len(1) unfolding cv' class_marked_def all_less_3
        by (auto simp: nth_list_update)
    qed
  qed
  have loc: "(evs @ [(sa, ea, x, y, z)] \<noteq> [] \<longrightarrow>
               slot_is lv' c 0 (coords (hd (evs @ [(sa, ea, x, y, z)])))) \<and>
             (2 \<le> length (evs @ [(sa, ea, x, y, z)]) \<longrightarrow>
               slot_is lv' c 1 (coords (last (evs @ [(sa, ea, x, y, z)]))) \<or>
               slot_is lv' c 2 (coords (last (evs @ [(sa, ea, x, y, z)]))))"
  proof (cases "evs = []")
    case True
    then have "b = c * 9" using cm b by (simp add: class_marked_def)
    then show ?thesis using True len(2) unfolding lv' by (simp add: slot_is_def coords_def)
  next
    case False
    then have s0: "slot_is lv c 0 (coords (hd evs))" using cm by (simp add: class_marked_def)
    then have "lv ! (c * 9) \<noteq> None" by (cases "coords (hd evs)") (simp add: slot_is_def)
    then have b': "b = c * 9 + 3 \<or> b = c * 9 + 6" using b by simp
    have "slot_is lv' c 0 (coords (hd evs))"
      using s0 b' unfolding lv' by (cases "coords (hd evs)") (auto simp: slot_is_def)
    moreover have "slot_is lv' c 1 (x, y, z) \<or> slot_is lv' c 2 (x, y, z)"
      using b' len(2) unfolding lv' by (auto simp: slot_is_def)
    ultimately show ?thesis using False by (simp add: coords_def)
  qed
  show ?thesis unfolding class_marked_def using pres loc by simp
qed

lemma class_marked_other:
  assumes cm: "class_marked c evs cv lv" and ne: "c' \<noteq> c"
    and len: "c' * 3 + 2 < length cv" "c' * 9 + 8 < length lv"
    and mc: "mark_class (c' * 3) cv = Inr cv'" and ml: "mark_loc (c' * 3) x y z lv = Inr lv'"
  shows "class_marked c evs cv' lv'"
proof -
  have l9: "c' * 3 * 3 + 8 < length lv" using len(2) by simp
  have cvq: "cv' ! (c * 3 + k) = cv ! (c * 3 + k)" if "k < 3" for k
  proof (rule mark_class_frame [OF len(1) mc])
    show "c * 3 + k < c' * 3 \<or> c' * 3 + 2 < c * 3 + k" using ne that by arith
  qed
  have lvq: "lv' ! (c * 9 + k) = lv ! (c * 9 + k)" if "k < 9" for k
  proof (rule mark_loc_frame [OF l9 ml])
    show "c * 9 + k < c' * 3 * 3 \<or> c' * 3 * 3 + 8 < c * 9 + k" using ne that by arith
  qed
  have slot: "slot_is lv' c k xyz = slot_is lv c k xyz" if "k < 3" for k xyz
  proof -
    have "lv' ! (c * 9 + k * 3) = lv ! (c * 9 + k * 3)"
      "lv' ! (c * 9 + k * 3 + 1) = lv ! (c * 9 + k * 3 + 1)"
      "lv' ! (c * 9 + k * 3 + 2) = lv ! (c * 9 + k * 3 + 2)"
      using lvq [of "k * 3"] lvq [of "k * 3 + 1"] lvq [of "k * 3 + 2"] that
      by (simp_all add: add.assoc)
    then show ?thesis by (cases xyz) (simp add: slot_is_def)
  qed
  have "lv' ! (c * 9) = lv ! (c * 9)" using lvq [of 0] by simp
  then show ?thesis using cm cvq slot unfolding class_marked_def by simp
qed

lemma index_of_nth_distinct:
  "distinct cs \<Longrightarrow> c < length cs \<Longrightarrow> index_of cs (cs ! c) = Inr c"
proof (induction cs arbitrary: c)
  case Nil
  then show ?case by simp
next
  case (Cons y ys)
  show ?case
  proof (cases c)
    case 0
    then show ?thesis by simp
  next
    case (Suc c')
    then have "ys ! c' \<in> set ys" using Cons.prems(2) by simp
    then have "y \<noteq> ys ! c'" using Cons.prems(1) by auto
    then show ?thesis using Suc Cons by simp
  qed
qed

lemma overlapping_Cons:
  "overlapping s e (ev # evs) = overlapping s e [ev] @ overlapping s e evs"
  by (simp add: overlapping_def)

lemma encode_event_marked:
  assumes d: "distinct classes_names" and j: "j < F" and c0: "c0 < length classes_names"
    and sh: "shape_ok F (length classes_names) st"
    and cm: "\<forall>c<length classes_names. class_marked c (H c) (fst st ! j) (snd st ! j)"
  shows "\<exists>st'. encode_event j s e classes_names (classes_names ! c0) ev st = Inr st' \<and>
           shape_ok F (length classes_names) st' \<and> same_but j st st' \<and>
           (\<forall>c<length classes_names.
              class_marked c (if c = c0 then H c @ overlapping s e [ev] else H c)
                (fst st' ! j) (snd st' ! j))"
proof -
  obtain class_vec loc_vec where st: "st = (class_vec, loc_vec)" by (cases st)
  obtain sa ea x y z where ev: "ev = (sa, ea, x, y, z)" by (cases ev)
  show ?thesis
  proof (cases "is_in sa ea s e")
    case False
    then have "overlapping s e [ev] = []" using ev by (simp add: overlapping_def)
    then show ?thesis using False sh cm st ev by (simp add: encode_event_def same_but_refl)
  next
    case True
    then have ov: "overlapping s e [ev] = [(sa, ea, x, y, z)]" using ev by (simp add: overlapping_def)
    have idx: "index_of classes_names (classes_names ! c0) = Inr c0"
      using d c0 by (rule index_of_nth_distinct)
    have lens: "length class_vec = F" "length loc_vec = F"
      "length (class_vec ! j) = length classes_names * 3"
      "length (loc_vec ! j) = length classes_names * 9"
      using j sh st by (auto simp: shape_ok_def list_all_length)
    have b3: "c0 * 3 + 2 < length (class_vec ! j)" using c0 lens(3) by simp
    from mark_class_ok [OF this] obtain cv' where
      cv': "mark_class (c0 * 3) (class_vec ! j) = Inr cv'" "length cv' = length (class_vec ! j)"
      by blast
    have b9: "c0 * 9 + 8 < length (loc_vec ! j)" using c0 lens(4) by simp
    then have "c0 * 3 * 3 + 8 < length (loc_vec ! j)" by simp
    from mark_loc_ok [OF this, of x y z] obtain lv' where
      lv': "mark_loc (c0 * 3) x y z (loc_vec ! j) = Inr lv'" "length lv' = length (loc_vec ! j)"
      by blast
    let ?st' = "(class_vec[j := cv'], loc_vec[j := lv'])"
    have res: "encode_event j s e classes_names (classes_names ! c0) ev st = Inr ?st'"
      using True st ev idx cv'(1) lv'(1) lens(1,2) j
      by (simp add: encode_event_def py_get_def)
    have shape: "shape_ok F (length classes_names) ?st'"
      using sh st cv'(2) lv'(2) lens
      by (simp add: shape_ok_def list_all_update)
    have same: "same_but j st ?st'"
      using st by (simp add: same_but_def)
    have rows: "fst ?st' ! j = cv'" "snd ?st' ! j = lv'" using lens(1,2) j by simp_all
    have marked: "\<forall>c<length classes_names.
              class_marked c (if c = c0 then H c @ overlapping s e [ev] else H c)
                (fst ?st' ! j) (snd ?st' ! j)"
    proof (intro allI impI)
      fix c assume c: "c < length classes_names"
      then have cmc: "class_marked c (H c) (class_vec ! j) (loc_vec ! j)" using cm st by simp
      show "class_marked c (if c = c0 then H c @ overlapping s e [ev] else H c)
                (fst ?st' ! j) (snd ?st' ! j)"
      proof (cases "c = c0")
        case True
        have "class_marked c0 (H c0 @ [(sa, ea, x, y, z)]) cv' lv'"
          using cmc b3 b9 cv'(1) lv'(1) unfolding True by (rule class_marked_own)
        then show ?thesis unfolding rows ov using True by simp
      next
        case False
        then have ne: "c0 \<noteq> c" by simp
        have "class_marked c (H c) cv' lv'"
          using cmc ne b3 b9 cv'(1) lv'(1) by (rule class_marked_other)
        then show ?thesis unfolding rows using False by simp
      qed
    qed
    show ?thesis using res shape same marked by blast
  qed
qed

lemma efold_events_marked:
  assumes d: "distinct classes_names" and j: "j < F" and c0: "c0 < length classes_names"
  shows "shape_ok F (length classes_names) st \<Longrightarrow>
         \<forall>c<length classes_names. class_marked c (H c) (fst st ! j) (snd st ! j) \<Longrightarrow>
         \<exists>st'. efold (encode_event j s e classes_names (classes_names ! c0)) evs st = Inr st' \<and>
           shape_ok F (length classes_names) st' \<and> same_but j st st' \<and>
           (\<forall>c<length classes_names.
              class_marked c (if c = c0 then H c @ overlapping s e evs else H c)
                (fst st' ! j) (snd st' ! j))"
proof (induction evs arbitrary: st H)
  case Nil
  then show ?case by (simp add: same_but_refl overlapping_def)
next
  case (Cons ev evs)
  let ?H1 = "\<lambda>c. if c = c0 then H c @ overlapping s e [ev] else H c"
  from encode_event_marked [OF d j c0 Cons.prems, of s e ev] obtain st1 where
    st1: "encode_event j s e classes_names (classes_names ! c0) ev st = Inr st1"
      "shape_ok F (length classes_names) st1" "same_but j st st1"
      "\<forall>c<length classes_names. class_marked c (?H1 c) (fst st1 ! j) (snd st1 ! j)" by blast
  from Cons.IH [of st1 ?H1, OF st1(2,4)] obtain st2 where
    st2: "efold (encode_event j s e classes_names (classes_names ! c0)) evs st1 = Inr st2"
      "shape_ok F (length classes_names) st2" "same_but j st1 st2"
      "\<forall>c<length classes_names.
         class_marked c (if c = c0 then ?H1 c @ overlapping s e evs else ?H1 c)
           (fst st2 ! j) (snd st2 ! j)" by blast
  have "\<forall>c<length classes_names.
         class_marked c (if c = c0 then H c @ overlapping s e (ev # evs) else H c)
           (fst st2 ! j) (snd st2 ! j)"
  proof (intro allI impI)
    fix c assume "c < length classes_names"
    with st2(4) have "class_marked c (if c = c0 then ?H1 c @ overlapping s e evs else ?H1 c)
           (fst st2 ! j) (snd st2 ! j)" by blast
    then show "class_marked c (if c = c0 then H c @ overlapping s e (ev # evs) else H c)
           (fst st2 ! j) (snd st2 ! j)"
      by (cases "c = c0") (simp_all add: overlapping_Cons [of s e ev evs])
  qed
  then show ?case using st1(1) st2(1,2) same_but_trans [OF st1(3) st2(3)] by simp
qed

lemma efold_dict_marked:
  assumes d: "distinct classes_names" and j: "j < F"
  shows "m \<le> length classes_names \<Longrightarrow> shape_ok F (length classes_names) st \<Longrightarrow>
         \<forall>c<length classes_names. class_marked c (H c) (fst st ! j) (snd st ! j) \<Longrightarrow>
         \<exists>st'. efold (\<lambda>entry. case entry of (clas, data_list) \<Rightarrow>
                    efold (encode_event j s e classes_names clas) data_list)
                  (map (\<lambda>c. (classes_names ! c, G c)) [m..<length classes_names]) st = Inr st' \<and>
           shape_ok F (length classes_names) st' \<and> same_but j st st' \<and>
           (\<forall>c<length classes_names.
              class_marked c (if m \<le> c then H c @ overlapping s e (G c) else H c)
                (fst st' ! j) (snd st' ! j))"
proof (induction "length classes_names - m" arbitrary: m st H)
  case 0
  then have "m = length classes_names" by simp
  then show ?case using 0 by (simp add: same_but_refl)
next
  case (Suc k)
  have m: "m < length classes_names" using Suc.hyps(2) by simp
  let ?H1 = "\<lambda>c. if c = m then H c @ overlapping s e (G m) else H c"
  from efold_events_marked [OF d j m Suc.prems(2,3), of s e "G m"] obtain st1 where
    st1: "efold (encode_event j s e classes_names (classes_names ! m)) (G m) st = Inr st1"
      "shape_ok F (length classes_names) st1" "same_but j st st1"
      "\<forall>c<length classes_names. class_marked c (?H1 c) (fst st1 ! j) (snd st1 ! j)" by blast
  have k: "k = length classes_names - Suc m" and m': "Suc m \<le> length classes_names"
    using Suc.hyps(2) by simp_all
  from Suc.hyps(1) [OF k m' st1(2), of ?H1, OF st1(4)] obtain st2 where
    st2: "efold (\<lambda>entry. case entry of (clas, data_list) \<Rightarrow>
                    efold (encode_event j s e classes_names clas) data_list)
                  (map (\<lambda>c. (classes_names ! c, G c)) [Suc m..<length classes_names]) st1 = Inr st2"
      "shape_ok F (length classes_names) st2" "same_but j st1 st2"
      "\<forall>c<length classes_names.
         class_marked c (if Suc m \<le> c then ?H1 c @ overlapping s e (G c) else ?H1 c)
           (fst st2 ! j) (snd st2 ! j)" by blast
  have "\<forall>c<length classes_names.
         class_marked c (if m \<le> c then H c @ overlapping s e (G c) else H c)
           (fst st2 ! j) (snd st2 ! j)"
  proof (intro allI impI)
    fix c assume "c < length classes_names"
    with st2(4) have cm: "class_marked c (if Suc m \<le> c then ?H1 c @ overlapping s e (G c) else ?H1 c)
           (fst st2 ! j) (snd st2 ! j)" by blast
    consider "c < m" | "c = m" | "m < c" by arith
    then show "class_marked c (if m \<le> c then H c @ overlapping s e (G c) else H c)
           (fst st2 ! j) (snd st2 ! j)"
    proof cases
      case 1
      then show ?thesis using cm by simp
    next
      case 2
      then show ?thesis using cm by simp
    next
      case 3
      then show ?thesis using cm by simp
    qed
  qed
  then show ?case
    using st1(1) st2(1,2) same_but_trans [OF st1(3) st2(3)] upt_conv_Cons [OF m] by simp
qed

lemma fill_none_nth:
  "q < length row \<Longrightarrow> fill_none row ! q = (if row ! q = None then Some 0 else row ! q)"
  by (simp add: fill_none_def)

lemma map_by_index: "map f xs = map (\<lambda>c. f (xs ! c)) [0..<length xs]"
  by (rule nth_equalityI) simp_all

lemma encode_frame_marked:
  assumes d: "distinct classes_names" and j: "j < F"
    and sh: "shape_ok F (length classes_names) st"
    and fresh: "fst st ! j = replicate (length classes_names * 3) None"
      "snd st ! j = replicate (length classes_names * 9) None"
  shows "\<exists>st' cv lv.
           encode_frame fl frame_len classes_names
             (map (\<lambda>k. (k, class_events df k)) classes_names) (j, i) st = Inr st' \<and>
           shape_ok F (length classes_names) st' \<and> same_but j st st' \<and>
           fst st' ! j = fill_none cv \<and> snd st' ! j = fill_none lv \<and>
           length cv = length classes_names * 3 \<and> length lv = length classes_names * 9 \<and>
           (\<forall>c<length classes_names.
              class_marked c (overlapping (fsub fl i frame_len) i (class_events df (classes_names ! c)))
                cv lv)"
proof -
  let ?n = "length classes_names"
  let ?G = "\<lambda>c. class_events df (classes_names ! c)"
  let ?s = "fsub fl i frame_len"
  have dict: "map (\<lambda>k. (k, class_events df k)) classes_names =
              map (\<lambda>c. (classes_names ! c, ?G c)) [0..<?n]"
    by (rule map_by_index)
  have init: "\<forall>c<?n. class_marked c ((\<lambda>c. []) c) (fst st ! j) (snd st ! j)"
    unfolding fresh class_marked_def all_less_3 by simp
  from efold_dict_marked [OF d j _ sh init, of 0 ?s i ?G] obtain st1 where
    st1: "efold (\<lambda>entry. case entry of (clas, data_list) \<Rightarrow>
                    efold (encode_event j ?s i classes_names clas) data_list)
                  (map (\<lambda>c. (classes_names ! c, ?G c)) [0..<?n]) st = Inr st1"
      "shape_ok F ?n st1" "same_but j st st1"
      "\<forall>c<?n. class_marked c (overlapping ?s i (?G c)) (fst st1 ! j) (snd st1 ! j)"
    by auto
  obtain class_vec loc_vec where cl: "st1 = (class_vec, loc_vec)" by (cases st1)
  have lens: "length class_vec = F" "length loc_vec = F"
    "list_all (\<lambda>cv. length cv = ?n * 3) class_vec"
    "list_all (\<lambda>lv. length lv = ?n * 9) loc_vec"
    using st1(2) cl by (simp_all add: shape_ok_def)
  let ?st' = "(class_vec[j := fill_none (class_vec ! j)], loc_vec[j := fill_none (loc_vec ! j)])"
  have res: "encode_frame fl frame_len classes_names
               (map (\<lambda>k. (k, class_events df k)) classes_names) (j, i) st = Inr ?st'"
    unfolding dict using st1(1) cl lens(1,2) j by (simp add: encode_frame_def py_get_def)
  have rows: "length (class_vec ! j) = ?n * 3" "length (loc_vec ! j) = ?n * 9"
    using lens j by (simp_all add: list_all_length)
  have shape: "shape_ok F ?n ?st'"
    using lens rows by (simp add: shape_ok_def list_all_update length_fill_none)
  have "same_but j st1 ?st'" using cl by (simp add: same_but_def)
  then have same: "same_but j st ?st'" using st1(3) same_but_trans by blast
  have at: "fst ?st' ! j = fill_none (class_vec ! j)" "snd ?st' ! j = fill_none (loc_vec ! j)"
    using lens(1,2) j by simp_all
  have marked: "\<forall>c<?n. class_marked c (overlapping ?s i (?G c)) (class_vec ! j) (loc_vec ! j)"
    using st1(4) cl by simp
  show ?thesis
    by (intro exI [of _ ?st'] exI [of _ "class_vec ! j"] exI [of _ "loc_vec ! j"] conjI
        res shape same at rows marked)
qed

lemma efold_frames_marked:
  assumes d: "distinct classes_names"
  shows "a \<le> b \<Longrightarrow> b \<le> F \<Longrightarrow> shape_ok F (length classes_names) st \<Longrightarrow>
         (\<forall>j<a. \<exists>cv lv. fst st ! j = fill_none cv \<and> snd st ! j = fill_none lv \<and>
             length cv = length classes_names * 3 \<and> length lv = length classes_names * 9 \<and>
             (\<forall>c<length classes_names.
                class_marked c (overlapping (fsub fl (W j) frame_len) (W j)
                                  (class_events df (classes_names ! c))) cv lv)) \<Longrightarrow>
         (\<forall>j. a \<le> j \<and> j < F \<longrightarrow>
             fst st ! j = replicate (length classes_names * 3) None \<and>
             snd st ! j = replicate (length classes_names * 9) None) \<Longrightarrow>
         \<exists>st'. efold (encode_frame fl frame_len classes_names
                        (map (\<lambda>k. (k, class_events df k)) classes_names))
                  (map (\<lambda>k. (k, W k)) [a..<b]) st = Inr st' \<and>
           shape_ok F (length classes_names) st' \<and>
           (\<forall>j<b. \<exists>cv lv. fst st' ! j = fill_none cv \<and> snd st' ! j = fill_none lv \<and>
             length cv = length classes_names * 3 \<and> length lv = length classes_names * 9 \<and>
             (\<forall>c<length classes_names.
                class_marked c (overlapping (fsub fl (W j) frame_len) (W j)
                                  (class_events df (classes_names ! c))) cv lv))"
proof (induction "b - a" arbitrary: a st)
  case 0
  then have "a = b" by simp
  then show ?case using 0 by simp
next
  case (Suc k)
  let ?n = "length classes_names"
  let ?done = "\<lambda>st j. \<exists>cv lv. fst st ! j = fill_none cv \<and> snd st ! j = fill_none lv \<and>
             length cv = ?n * 3 \<and> length lv = ?n * 9 \<and>
             (\<forall>c<?n. class_marked c (overlapping (fsub fl (W j) frame_len) (W j)
                                  (class_events df (classes_names ! c))) cv lv)"
  have a: "a < b" "a < F" using Suc.hyps(2) Suc.prems(2) by simp_all
  have fresh: "fst st ! a = replicate (?n * 3) None" "snd st ! a = replicate (?n * 9) None"
    using Suc.prems(5) a(2) by simp_all
  from encode_frame_marked [OF d a(2) Suc.prems(3) fresh, of fl frame_len df "W a"]
  obtain st1 cv lv where
    st1: "encode_frame fl frame_len classes_names
             (map (\<lambda>k. (k, class_events df k)) classes_names) (a, W a) st = Inr st1"
      "shape_ok F ?n st1" "same_but a st st1"
    and row: "fst st1 ! a = fill_none cv" "snd st1 ! a = fill_none lv"
      "length cv = ?n * 3" "length lv = ?n * 9"
      "\<forall>c<?n. class_marked c (overlapping (fsub fl (W a) frame_len) (W a)
                                  (class_events df (classes_names ! c))) cv lv"
    by blast
  have done1: "\<forall>j<Suc a. ?done st1 j"
  proof (intro allI impI)
    fix j assume "j < Suc a"
    show "?done st1 j"
    proof (cases "j = a")
      case True
      show ?thesis unfolding True
        by (intro exI [of _ cv] exI [of _ lv] conjI row)
    next
      case False
      with \<open>j < Suc a\<close> have "j < a" by simp
      then have "?done st j" using Suc.prems(4) by blast
      moreover have "fst st1 ! j = fst st ! j" "snd st1 ! j = snd st ! j"
        using st1(3) False by (simp_all add: same_but_def)
      ultimately show ?thesis by simp
    qed
  qed
  have fresh1: "\<forall>j. Suc a \<le> j \<and> j < F \<longrightarrow>
             fst st1 ! j = replicate (?n * 3) None \<and> snd st1 ! j = replicate (?n * 9) None"
  proof (intro allI impI)
    fix j assume j: "Suc a \<le> j \<and> j < F"
    then have "j \<noteq> a" "a \<le> j \<and> j < F" by simp_all
    then show "fst st1 ! j = replicate (?n * 3) None \<and> snd st1 ! j = replicate (?n * 9) None"
      using st1(3) Suc.prems(5) by (simp add: same_but_def)
  qed
  have k: "k = b - Suc a" and ab: "Suc a \<le> b" using Suc.hyps(2) by simp_all
  from Suc.hyps(1) [OF k ab Suc.prems(2) st1(2) done1 fresh1] obtain st2 where
    st2: "efold (encode_frame fl frame_len classes_names
                        (map (\<lambda>k. (k, class_events df k)) classes_names))
                  (map (\<lambda>k. (k, W k)) [Suc a..<b]) st1 = Inr st2"
      "shape_ok F ?n st2" "\<forall>j<b. ?done st2 j" by blast
  show ?case
    using st1(1) st2 upt_conv_Cons [OF a(1)] by simp
qed

lemma enumerate_map_upt: "enumerate 0 (map W [0..<N]) = map (\<lambda>k. (k, W k)) [0..<N]"
  by (rule nth_equalityI) (simp_all add: nth_enumerate_eq)

lemma stack_labels_rows:
  assumes "0 < F" "shape_ok F n st"
    "\<forall>k<F. None \<notin> set (fst st ! k) \<and> None \<notin> set (snd st ! k)"
  shows "\<exists>rows. stack_labels fl (fst st) (snd st) m = Inr rows \<and> length rows = F \<and>
           (\<forall>j<F. rows ! j = map (\<lambda>v. real_of_int (the v)) (fst st ! j) @
                               map (\<lambda>v. fdiv fl (the v) m) (snd st ! j))"
proof -
  let ?cl = "map (map (\<lambda>v. real_of_int (the v))) (fst st)"
  let ?loc = "map (map the) (snd st)"
  let ?rows = "map2 (\<lambda>c l. c @ map (\<lambda>v. fdiv fl v m) l) ?cl ?loc"
  have lens: "length (fst st) = F" "length (snd st) = F" using assms(2) by (simp_all add: shape_ok_def)
  have "\<forall>row\<in>set (snd st). None \<notin> set row" using assms(3) lens by (auto simp: in_set_conv_nth)
  then have loc: "emap (emap to_float) (snd st) = Inr ?loc"
    by (intro emap_total) (simp add: emap_to_float)
  have "\<forall>row\<in>set (fst st). None \<notin> set row" using assms(3) lens by (auto simp: in_set_conv_nth)
  then have cl: "emap (emap int_to_float) (fst st) = Inr ?cl"
    by (intro emap_total) (simp add: emap_int_to_float)
  have ne: "fst st \<noteq> []" using assms(1) lens by auto
  have res: "stack_labels fl (fst st) (snd st) m = Inr ?rows"
    using ne loc cl by (simp add: stack_labels_def)
  have len: "length ?rows = F" using lens by simp
  have "\<forall>j<F. ?rows ! j = map (\<lambda>v. real_of_int (the v)) (fst st ! j) @
                               map (\<lambda>v. fdiv fl (the v) m) (snd st ! j)"
    using lens by (simp add: comp_def)
  then show ?thesis using res len by blast
qed

lemma row_of_marked:
  assumes cm: "class_marked c evs cv lv" and c: "c < n"
    and len: "length cv = n * 3" "length lv = n * 9"
    and row: "row = map (\<lambda>v. real_of_int (the v)) (fill_none cv) @
                    map (\<lambda>v. fdiv fl (the v) m) (fill_none lv)"
  shows "length row = n * 12"
    and "\<forall>k<3. presence_at row c k = (if k < length evs then 1 else 0)"
    and "evs \<noteq> [] \<longrightarrow> location_at row n c 0 = normalized fl m (coords (hd evs))"
    and "2 \<le> length evs \<longrightarrow>
           location_at row n c 1 = normalized fl m (coords (last evs)) \<or>
           location_at row n c 2 = normalized fl m (coords (last evs))"
proof -
  show "length row = n * 12" unfolding row using len by (simp add: length_fill_none)
  have p: "row ! (c * 3 + k) = real_of_int (the (fill_none cv ! (c * 3 + k)))" if "k < 3" for k
  proof -
    have "c * 3 + k < n * 3" using c that by simp
    then show ?thesis unfolding row using len(1) by (simp add: nth_append length_fill_none)
  qed
  have l: "row ! (n * 3 + q) = fdiv fl (the (fill_none lv ! q)) m" if "q < n * 9" for q
    unfolding row using len that by (simp add: nth_append length_fill_none)
  show "\<forall>k<3. presence_at row c k = (if k < length evs then 1 else 0)"
  proof (intro allI impI)
    fix k :: nat assume k: "k < 3"
    then have "c * 3 + k < length cv" using c len(1) by simp
    moreover have "cv ! (c * 3 + k) = (if k < length evs then Some 1 else None)"
      using cm k by (simp add: class_marked_def)
    ultimately show "presence_at row c k = (if k < length evs then 1 else 0)"
      unfolding presence_at_def p [OF k] by (simp add: fill_none_nth)
  qed
  have slot: "location_at row n c k = normalized fl m xyz" if "slot_is lv c k xyz" "k < 3" for k xyz
  proof -
    obtain x y z where xyz: "xyz = (x, y, z)" by (cases xyz)
    have q: "c * 9 + k * 3 + 2 < n * 9" using c that(2) by simp
    then have q': "c * 9 + k * 3 + 2 < length lv" using len(2) by simp
    have "row ! (n * 3 + c * 9 + k * 3) = fdiv fl x m"
      "row ! (n * 3 + c * 9 + k * 3 + 1) = fdiv fl y m"
      "row ! (n * 3 + c * 9 + k * 3 + 2) = fdiv fl z m"
      using l [of "c * 9 + k * 3"] l [of "c * 9 + k * 3 + 1"] l [of "c * 9 + k * 3 + 2"]
        q q' that(1) xyz
      by (simp_all add: slot_is_def fill_none_nth add.assoc)
    then show ?thesis unfolding location_at_def normalized_def xyz by simp
  qed
  show "evs \<noteq> [] \<longrightarrow> location_at row n c 0 = normalized fl m (coords (hd evs))"
    using cm slot [of 0] by (simp add: class_marked_def)
  show "2 \<le> length evs \<longrightarrow>
           location_at row n c 1 = normalized fl m (coords (last evs)) \<or>
           location_at row n c 2 = normalized fl m (coords (last evs))"
  proof
    assume "2 \<le> length evs"
    then have "slot_is lv c 1 (coords (last evs)) \<or> slot_is lv c 2 (coords (last evs))"
      using cm by (simp add: class_marked_def)
    then show "location_at row n c 1 = normalized fl m (coords (last evs)) \<or>
           location_at row n c 2 = normalized fl m (coords (last evs))"
    proof
      assume "slot_is lv c 1 (coords (last evs))"
      then have "location_at row n c 1 = normalized fl m (coords (last evs))"
        by (rule slot) simp
      then show ?thesis ..
    next
      assume "slot_is lv c 2 (coords (last evs))"
      then have "location_at row n c 2 = normalized fl m (coords (last evs))"
        by (rule slot) simp
      then show ?thesis ..
    qed
  qed
qed

lemma get_label_task2_marked:
  assumes "distinct classes_names" "frame_len \<noteq> 0"
    and "nat \<lceil>fdiv fl (fsub fl (fadd fl file_size frame_len) frame_len) frame_len\<rceil> = num_frames"
    and "0 < num_frames"
  shows "\<exists>rows. get_label_task2 fl df frame_len file_size classes_names num_frames max_label_distance
                  = Inr rows \<and>
            length rows = num_frames \<and>
            (\<forall>j<num_frames. \<forall>c<length classes_names.
               length (rows ! j) = length classes_names * 12 \<and>
               (\<forall>k<3. presence_at (rows ! j) c k =
                        (if k < length (frame_events fl df frame_len classes_names j c) then 1 else 0)) \<and>
               (frame_events fl df frame_len classes_names j c \<noteq> [] \<longrightarrow>
                  location_at (rows ! j) (length classes_names) c 0 =
                  normalized fl max_label_distance
                    (coords (hd (frame_events fl df frame_len classes_names j c)))) \<and>
               (2 \<le> length (frame_events fl df frame_len classes_names j c) \<longrightarrow>
                  location_at (rows ! j) (length classes_names) c 1 =
                  normalized fl max_label_distance
                    (coords (last (frame_events fl df frame_len classes_names j c))) \<or>
                  location_at (rows ! j) (length classes_names) c 2 =
                  normalized fl max_label_distance
                    (coords (last (frame_events fl df frame_len classes_names j c)))))"
proof -
  let ?n = "length classes_names"
  let ?W = "arange_value fl frame_len frame_len"
  let ?st0 = "(replicate num_frames (replicate (?n * 3) (None :: int option)),
               replicate num_frames (replicate (?n * 9) (None :: real option)))"
  let ?frames = "map ?W [0..<num_frames]"
  let ?dict = "map (\<lambda>k. (k, class_events df k)) classes_names"
  have cd: "build_class_dict df classes_names = Inr ?dict"
    using assms(1) by (rule build_class_dict_distinct)
  have fr: "np_arange_real fl frame_len (fadd fl file_size frame_len) frame_len = Inr ?frames"
    using assms(2,3) by (simp add: np_arange_real_def)
  have s0: "shape_ok num_frames ?n ?st0" by (simp add: shape_ok_def list_all_length)
  have fresh: "\<forall>j. 0 \<le> j \<and> j < num_frames \<longrightarrow>
                 fst ?st0 ! j = replicate (?n * 3) None \<and> snd ?st0 ! j = replicate (?n * 9) None"
    by simp
  from efold_frames_marked [where a = 0 and b = num_frames and F = num_frames and W = ?W
      and fl = fl and frame_len = frame_len and df = df and st = ?st0, OF assms(1) _ _ s0 _ fresh]
  obtain st' where
    st': "efold (encode_frame fl frame_len classes_names ?dict)
            (map (\<lambda>k. (k, ?W k)) [0..<num_frames]) ?st0 = Inr st'"
      "shape_ok num_frames ?n st'"
    and rows': "\<forall>j<num_frames. \<exists>cv lv. fst st' ! j = fill_none cv \<and> snd st' ! j = fill_none lv \<and>
             length cv = ?n * 3 \<and> length lv = ?n * 9 \<and>
             (\<forall>c<?n. class_marked c (overlapping (fsub fl (?W j) frame_len) (?W j)
                                  (class_events df (classes_names ! c))) cv lv)"
    by auto
  have filled: "\<forall>k<num_frames. None \<notin> set (fst st' ! k) \<and> None \<notin> set (snd st' ! k)"
  proof (intro allI impI)
    fix k assume "k < num_frames"
    with rows' obtain cv lv where "fst st' ! k = fill_none cv" "snd st' ! k = fill_none lv"
      by blast
    then show "None \<notin> set (fst st' ! k) \<and> None \<notin> set (snd st' ! k)"
      by (simp add: fill_none_filled)
  qed
  from stack_labels_rows [OF assms(4) st'(2) filled, of fl max_label_distance] obtain rows where
    rows: "stack_labels fl (fst st') (snd st') max_label_distance = Inr rows"
      "length rows = num_frames"
      "\<forall>j<num_frames. rows ! j = map (\<lambda>v. real_of_int (the v)) (fst st' ! j) @
                               map (\<lambda>v. fdiv fl (the v) max_label_distance) (snd st' ! j)"
    by blast
  have run: "get_label_task2 fl df frame_len file_size classes_names num_frames max_label_distance
             = Inr rows"
    using cd fr st'(1) rows(1)
    by (simp add: get_label_task2_def Let_def enumerate_py_def enumerate_map_upt)
  have each: "\<forall>j<num_frames. \<forall>c<?n.
               length (rows ! j) = ?n * 12 \<and>
               (\<forall>k<3. presence_at (rows ! j) c k =
                        (if k < length (frame_events fl df frame_len classes_names j c) then 1 else 0)) \<and>
               (frame_events fl df frame_len classes_names j c \<noteq> [] \<longrightarrow>
                  location_at (rows ! j) ?n c 0 =
                  normalized fl max_label_distance
                    (coords (hd (frame_events fl df frame_len classes_names j c)))) \<and>
               (2 \<le> length (frame_events fl df frame_len classes_names j c) \<longrightarrow>
                  location_at (rows ! j) ?n c 1 =
                  normalized fl max_label_distance
                    (coords (last (frame_events fl df frame_len classes_names j c))) \<or>
                  location_at (rows ! j) ?n c 2 =
                  normalized fl max_label_distance
                    (coords (last (frame_events fl df frame_len classes_names j c))))"
  proof (intro allI impI)
    fix j c assume j: "j < num_frames" and c: "c < ?n"
    let ?E = "frame_events fl df frame_len classes_names j c"
    from rows' j obtain cv lv where
      r: "fst st' ! j = fill_none cv" "snd st' ! j = fill_none lv"
        "length cv = ?n * 3" "length lv = ?n * 9"
      and cm: "\<forall>c<?n. class_marked c (overlapping (fsub fl (?W j) frame_len) (?W j)
                                  (class_events df (classes_names ! c))) cv lv"
      by blast
    have cmc: "class_marked c ?E cv lv"
      using cm c by (simp add: frame_events_def Let_def)
    have row: "rows ! j = map (\<lambda>v. real_of_int (the v)) (fill_none cv) @
                          map (\<lambda>v. fdiv fl (the v) max_label_distance) (fill_none lv)"
      using rows(3) j r(1,2) by simp
    show "length (rows ! j) = ?n * 12 \<and>
               (\<forall>k<3. presence_at (rows ! j) c k = (if k < length ?E then 1 else 0)) \<and>
               (?E \<noteq> [] \<longrightarrow>
                  location_at (rows ! j) ?n c 0 = normalized fl max_label_distance (coords (hd ?E))) \<and>
               (2 \<le> length ?E \<longrightarrow>
                  location_at (rows ! j) ?n c 1 = normalized fl max_label_distance (coords (last ?E)) \<or>
                  location_at (rows ! j) ?n c 2 = normalized fl max_label_distance (coords (last ?E)))"
      by (intro conjI row_of_marked [OF cmc c r(3,4) row])
  qed
  show "\<exists>rows. get_label_task2 fl df frame_len file_size classes_names num_frames max_label_distance
                  = Inr rows \<and>
            length rows = num_frames \<and>
            (\<forall>j<num_frames. \<forall>c<length classes_names.
               length (rows ! j) = length classes_names * 12 \<and>
               (\<forall>k<3. presence_at (rows ! j) c k =
                        (if k < length (frame_events fl df frame_len classes_names j c) then 1 else 0)) \<and>
               (frame_events fl df frame_len classes_names j c \<noteq> [] \<longrightarrow>
                  location_at (rows ! j) (length classes_names) c 0 =
                  normalized fl max_label_distance
                    (coords (hd (frame_events fl df frame_len classes_names j c)))) \<and>
               (2 \<le> length (frame_events fl df frame_len classes_names j c) \<longrightarrow>
                  location_at (rows ! j) (length classes_names) c 1 =
                  normalized fl max_label_distance
                    (coords (last (frame_events fl df frame_len classes_names j c))) \<or>
                  location_at (rows ! j) (length classes_names) c 2 =
                  normalized fl max_label_distance
                    (coords (last (frame_events fl df frame_len classes_names j c)))))"
    by (intro exI [of _ rows] conjI run rows(2) each)
qed

text \<open>
  C4 as stated fails on four concurrent events of one class: after three events
  location slot 2 holds (3, 3, 3), and the fourth event replaces it by (4, 4, 4).
\<close>

theorem get_label_task2_fourth_event_overwrites:
  "get_label_task2 exact
     [\<lparr>Start_col = 1 / 10, End_col = 9 / 10, Class_col = ''dog'', X_col = 1, Y_col = 1, Z_col = 1\<rparr>,
      \<lparr>Start_col = 2 / 10, End_col = 8 / 10, Class_col = ''dog'', X_col = 2, Y_col = 2, Z_col = 2\<rparr>,
      \<lparr>Start_col = 3 / 10, End_col = 7 / 10, Class_col = ''dog'', X_col = 3, Y_col = 3, Z_col = 3\<rparr>]
     1 1 [''dog''] 1 1
   = Inr [[1, 1, 1, 1, 1, 1, 0, 0, 0, 3, 3, 3]] \<and>
   get_label_task2 exact
     [\<lparr>Start_col = 1 / 10, End_col = 9 / 10, Class_col = ''dog'', X_col = 1, Y_col = 1, Z_col = 1\<rparr>,
      \<lparr>Start_col = 2 / 10, End_col = 8 / 10, Class_col = ''dog'', X_col = 2, Y_col = 2, Z_col = 2\<rparr>,
      \<lparr>Start_col = 3 / 10, End_col = 7 / 10, Class_col = ''dog'', X_col = 3, Y_col = 3, Z_col = 3\<rparr>,
      \<lparr>Start_col = 4 / 10, End_col = 6 / 10, Class_col = ''dog'', X_col = 4, Y_col = 4, Z_col = 4\<rparr>]
     1 1 [''dog''] 1 1
   = Inr [[1, 1, 1, 1, 1, 1, 0, 0, 0, 4, 4, 4]]"
  by code_simp

text \<open>
  C4, as amended. Whatever the annotation holds, also more than three events of one
  class in one frame, \<^verbatim>\<open>get_label_task2\<close> returns a label matrix, given a non-zero
  frame length and \<open>num_frames\<close> equal to the number of frame windows that
  \<^verbatim>\<open>np.arange\<close> computes: one row per frame, each of exactly twelve entries per class,
  so no write leaves the row of its frame. With distinct class names the run fills
  the row of frame \<open>j\<close> for class \<open>c\<close> from the events of the class that overlap the
  frame, in file order: presence slot \<open>k\<close> is 1 when there are more than \<open>k\<close> such
  events and 0 otherwise, so from three events on all three slots are set; location
  slot 0 holds the normalised coordinates of the first event and is never written
  again; and from two events on the coordinates of the last event are in location
  slot 1 or 2, so the encoder does not stop writing when the slots are used up: a
  fourth or later event takes the place of an earlier one. The write loop of
  \<^verbatim>\<open>csv_to_matrix_task2\<close> behaves differently: for a frame whose \<open>max_overlap\<close>
  slots of the class are all 1 it raises an IndexError.
\<close>

theorem get_label_task2_overflow:
  assumes "frame_len \<noteq> 0"
    and "nat \<lceil>fdiv fl (fsub fl (fadd fl file_size frame_len) frame_len) frame_len\<rceil> = num_frames"
    and "0 < num_frames"
    and "f < length cl" "class_id < length (cl ! f)" "cl ! f ! class_id = replicate max_overlap 1"
  shows "(\<exists>rows. get_label_task2 fl df frame_len file_size classes_names num_frames max_label_distance
                  = Inr rows \<and>
            length rows = num_frames \<and>
            list_all (\<lambda>row. length row = length classes_names * 12) rows \<and>
            (distinct classes_names \<longrightarrow>
             (\<forall>j<num_frames. \<forall>c<length classes_names.
               (\<forall>k<3. presence_at (rows ! j) c k =
                        (if k < length (frame_events fl df frame_len classes_names j c) then 1 else 0)) \<and>
               (frame_events fl df frame_len classes_names j c \<noteq> [] \<longrightarrow>
                  location_at (rows ! j) (length classes_names) c 0 =
                  normalized fl max_label_distance
                    (coords (hd (frame_events fl df frame_len classes_names j c)))) \<and>
               (2 \<le> length (frame_events fl df frame_len classes_names j c) \<longrightarrow>
                  location_at (rows ! j) (length classes_names) c 1 =
                  normalized fl max_label_distance
                    (coords (last (frame_events fl df frame_len classes_names j c))) \<or>
                  location_at (rows ! j) (length classes_names) c 2 =
                  normalized fl max_label_distance
                    (coords (last (frame_events fl df frame_len classes_names j c))))))) \<and>
         write_sound class_id x y z f (cl, loc) = Inl IndexError"
proof (rule conjI)
  from get_label_task2_total [OF assms(1-3), of df classes_names max_label_distance]
  obtain rows where
    rows: "get_label_task2 fl df frame_len file_size classes_names num_frames max_label_distance
           = Inr rows"
      "length rows = num_frames"
      "list_all (\<lambda>row. length row = length classes_names * 12) rows" by blast
  have marked: "distinct classes_names \<longrightarrow>
             (\<forall>j<num_frames. \<forall>c<length classes_names.
               (\<forall>k<3. presence_at (rows ! j) c k =
                        (if k < length (frame_events fl df frame_len classes_names j c) then 1 else 0)) \<and>
               (frame_events fl df frame_len classes_names j c \<noteq> [] \<longrightarrow>
                  location_at (rows ! j) (length classes_names) c 0 =
                  normalized fl max_label_distance
                    (coords (hd (frame_events fl df frame_len classes_names j c)))) \<and>
               (2 \<le> length (frame_events fl df frame_len classes_names j c) \<longrightarrow>
                  location_at (rows ! j) (length classes_names) c 1 =
                  normalized fl max_label_distance
                    (coords (last (frame_events fl df frame_len classes_names j c))) \<or>
                  location_at (rows ! j) (length classes_names) c 2 =
                  normalized fl max_label_distance
                    (coords (last (frame_events fl df frame_len classes_names j c)))))"
  proof
    assume d: "distinct classes_names"
    from get_label_task2_marked [OF d assms(1-3), of df max_label_distance] rows(1)
    show "\<forall>j<num_frames. \<forall>c<length classes_names.
               (\<forall>k<3. presence_at (rows ! j) c k =
                        (if k < length (frame_events fl df frame_len classes_names j c) then 1 else 0)) \<and>
               (frame_events fl df frame_len classes_names j c \<noteq> [] \<longrightarrow>
                  location_at (rows ! j) (length classes_names) c 0 =
                  normalized fl max_label_distance
                    (coords (hd (frame_events fl df frame_len classes_names j c)))) \<and>
               (2 \<le> length (frame_events fl df frame_len classes_names j c) \<longrightarrow>
                  location_at (rows ! j) (length classes_names) c 1 =
                  normalized fl max_label_distance
                    (coords (last (frame_events fl df frame_len classes_names j c))) \<or>
                  location_at (rows ! j) (length classes_names) c 2 =
                  normalized fl max_label_distance
                    (coords (last (frame_events fl df frame_len classes_names j c))))"
      by auto
  qed
  show "\<exists>rows. get_label_task2 fl df frame_len file_size classes_names num_frames max_label_distance
                  = Inr rows \<and>
            length rows = num_frames \<and>
            list_all (\<lambda>row. length row = length classes_names * 12) rows \<and>
            (distinct classes_names \<longrightarrow>
             (\<forall>j<num_frames. \<forall>c<length classes_names.
               (\<forall>k<3. presence_at (rows ! j) c k =
                        (if k < length (frame_events fl df frame_len classes_names j c) then 1 else 0)) \<and>
               (frame_events fl df frame_len classes_names j c \<noteq> [] \<longrightarrow>
                  location_at (rows ! j) (length classes_names) c 0 =
                  normalized fl max_label_distance
                    (coords (hd (frame_events fl df frame_len classes_names j c)))) \<and>
               (2 \<le> length (frame_events fl df frame_len classes_names j c) \<longrightarrow>
                  location_at (rows ! j) (length classes_names) c 1 =
                  normalized fl max_label_distance
                    (coords (last (frame_events fl df frame_len classes_names j c))) \<or>
                  location_at (rows ! j) (length classes_names) c 2 =
                  normalized fl max_label_distance
                    (coords (last (frame_events fl df frame_len classes_names j c))))))"
    by (intro exI [of _ rows] conjI rows marked)
next
  show "write_sound class_id x y z f (cl, loc) = Inl IndexError"
    using assms(4-6) by (rule write_sound_full)
qed

theorem get_label_task2_overflow_witness:
  "\<exists>rows. get_label_task2 exact
       [\<lparr>Start_col = 1, End_col = 9, Class_col = ''dog'', X_col = 1, Y_col = 1, Z_col = 1\<rparr>,
        \<lparr>Start_col = 2, End_col = 8, Class_col = ''dog'', X_col = 2, Y_col = 2, Z_col = 2\<rparr>,
        \<lparr>Start_col = 3, End_col = 7, Class_col = ''dog'', X_col = 3, Y_col = 3, Z_col = 3\<rparr>,
        \<lparr>Start_col = 4, End_col = 6, Class_col = ''dog'', X_col = 4, Y_col = 4, Z_col = 4\<rparr>]
       10 10 [''dog''] 1 2 = Inr rows \<and>
     length rows = 1 \<and> length (rows ! 0) = 12 \<and>
     presence_at (rows ! 0) 0 0 = 1 \<and> presence_at (rows ! 0) 0 1 = 1 \<and>
     presence_at (rows ! 0) 0 2 = 1 \<and>
     location_at (rows ! 0) 1 0 0 = (1 / 2, 1 / 2, 1 / 2) \<and>
     (location_at (rows ! 0) 1 0 1 = (2, 2, 2) \<or> location_at (rows ! 0) 1 0 2 = (2, 2, 2)) \<and>
     write_sound 0 4 4 4 0 ([[[1, 1, 1]]], [[[[1, 1, 1], [2, 2, 2], [3, 3, 3]]]]) = Inl IndexError"
proof -
  let ?df = "[\<lparr>Start_col = 1, End_col = 9, Class_col = ''dog'', X_col = 1, Y_col = 1, Z_col = 1\<rparr>,
        \<lparr>Start_col = 2, End_col = 8, Class_col = ''dog'', X_col = 2, Y_col = 2, Z_col = 2\<rparr>,
        \<lparr>Start_col = 3, End_col = 7, Class_col = ''dog'', X_col = 3, Y_col = 3, Z_col = 3\<rparr>,
        \<lparr>Start_col = 4, End_col = 6, Class_col = ''dog'', X_col = 4, Y_col = 4, Z_col = 4\<rparr>]"
  have ev: "frame_events exact ?df 10 [''dog''] 0 0 =
            [(1, 9, 1, 1, 1), (2, 8, 2, 2, 2), (3, 7, 3, 3, 3), (4, 6, 4, 4, 4)]"
    by (simp add: frame_events_def arange_value_def exact_def overlapping_def class_events_def
        is_in_def)
  have fd: "fdiv exact a b = a / b" for a b by (simp add: exact_def)
  have nf: "nat \<lceil>fdiv exact (fsub exact (fadd exact 10 10) 10) 10\<rceil> = 1"
    by (simp add: exact_def)
  have sl: "[[[1, 1, 1]]] ! 0 ! 0 = replicate 3 (1 :: real)"
    by (simp add: numeral_3_eq_3)
  show ?thesis
    using get_label_task2_overflow [where fl = exact and df = ?df and frame_len = 10
        and file_size = 10 and classes_names = "[''dog'']" and num_frames = 1
        and max_label_distance = 2 and f = 0 and cl = "[[[1, 1, 1]]]" and class_id = 0
        and max_overlap = 3 and x = 4 and y = 4 and z = 4
        and loc = "[[[[1, 1, 1], [2, 2, 2], [3, 3, 3]]]]", OF _ nf _ _ _ sl]
    by (auto simp: ev fd all_less_3 coords_def normalized_def list_all_length)
qed

section \<open>The decoder\<close>

lemma np_round_unit: "0 \<le> s \<Longrightarrow> s \<le> 1 \<Longrightarrow> np_round s = (if 1 / 2 < s then 1 else 0)"
proof (cases "s = 1")
  case True
  then show ?thesis by (simp add: np_round_def)
next
  case False
  assume "0 \<le> s" "s \<le> 1"
  with False have "\<lfloor>s\<rfloor> = 0" by (simp add: floor_eq_iff)
  then show ?thesis by (simp add: np_round_def Let_def)
qed

lemma reshape_get_flat:
  assumes "0 < mo" "j < nc * mo" "k < 3"
  shows "reshape_get l nc mo (j div mo) (j mod mo) k = Inr (l ! (j * 3 + k))"
proof -
  have "j div mo < nc" using assms by (simp add: less_mult_imp_div_less)
  moreover have "j mod mo < mo" using assms by simp
  moreover have "j div mo * mo + j mod mo = j" by simp
  ultimately show ?thesis using assms by (simp add: reshape_get_def)
qed

lemma decode_slot_active:
  assumes "0 < mo" "j < nc * mo" "e \<noteq> 0"
  shows "decode_slot i l nc mo (j, e) out =
         Inr (out @ [(i, j div mo, l ! (j * 3), l ! (j * 3 + 1), l ! (j * 3 + 2))])"
  using assms reshape_get_flat [OF assms(1,2), of 0 l] reshape_get_flat [OF assms(1,2), of 1 l]
    reshape_get_flat [OF assms(1,2), of 2 l]
  by (simp add: decode_slot_def Let_def)

lemma decode_slot_inactive: "decode_slot i l nc mo (j, 0) out = Inr out"
  by (simp add: decode_slot_def)

lemma efold_decode_slot:
  assumes "0 < mo"
  shows "\<forall>s\<in>set c. 0 \<le> s \<and> s \<le> 1 \<Longrightarrow> a + length c \<le> nc * mo \<Longrightarrow>
     efold (decode_slot i l nc mo) (enumerate a (map np_round c)) out =
     Inr (out @ map (\<lambda>js. case js of (j, s) \<Rightarrow> (i, j div mo, l ! (j * 3), l ! (j * 3 + 1), l ! (j * 3 + 2)))
                 (filter (\<lambda>js. 1 / 2 < snd js) (enumerate a c)))"
proof (induction c arbitrary: a out)
  case Nil
  then show ?case by simp
next
  case (Cons s c)
  have a: "a < nc * mo" and rest: "Suc a + length c \<le> nc * mo" using Cons.prems(2) by simp_all
  have s: "np_round s = (if 1 / 2 < s then 1 else 0)" using Cons.prems(1) by (simp add: np_round_unit)
  have IH: "\<And>out. efold (decode_slot i l nc mo) (enumerate (Suc a) (map np_round c)) out =
     Inr (out @ map (\<lambda>js. case js of (j, s) \<Rightarrow> (i, j div mo, l ! (j * 3), l ! (j * 3 + 1), l ! (j * 3 + 2)))
                 (filter (\<lambda>js. 1 / 2 < snd js) (enumerate (Suc a) c)))"
    using Cons.IH [OF _ rest] Cons.prems(1) by simp
  show ?case
  proof (cases "1 / 2 < s")
    case True
    then show ?thesis using s IH decode_slot_active [OF assms a, of 1 i l out] by simp
  next
    case False
    then show ?thesis using s IH decode_slot_inactive [of i l nc mo a out] by simp
  qed
qed

lemma sum_round_zero:
  "\<forall>s\<in>set c. 0 \<le> s \<and> s \<le> 1 \<Longrightarrow> sum_list (map np_round c) = 0 \<Longrightarrow>
   filter (\<lambda>js. 1 / 2 < snd js) (enumerate a c) = []"
proof (induction c arbitrary: a)
  case Nil
  then show ?case by simp
next
  case (Cons s c)
  have nn: "0 \<le> sum_list (map np_round c)"
    using Cons.prems(1) by (intro sum_list_nonneg) (auto simp: np_round_unit)
  have s: "np_round s = (if 1 / 2 < s then 1 else 0)" using Cons.prems(1) by (simp add: np_round_unit)
  from Cons.prems(2) nn s have "\<not> 1 / 2 < s" and "sum_list (map np_round c) = 0"
    by (auto split: if_splits)
  then show ?case using Cons.IH [of "Suc a"] Cons.prems(1) by simp
qed

lemma decode_frame_rows:
  assumes "0 < mo" "length c = nc * mo" "\<forall>s\<in>set c. 0 \<le> s \<and> s \<le> 1" "length l = nc * mo * 3"
  shows "decode_frame mlv nc mo (i, c, l) out = Inr (out @ active_rows mlv mo i c l)"
proof -
  let ?l' = "map (\<lambda>v. v * mlv) l"
  have len: "length l = length c * 3" using assms(2,4) by simp
  have idx: "\<And>j k. j < length c \<Longrightarrow> k < 3 \<Longrightarrow> ?l' ! (j * 3 + k) = l ! (j * 3 + k) * mlv"
    using len by (intro nth_map) arith
  have rows: "map (\<lambda>js. case js of (j, s) \<Rightarrow> (i, j div mo, ?l' ! (j * 3), ?l' ! (j * 3 + 1), ?l' ! (j * 3 + 2)))
                 (filter (\<lambda>js. 1 / 2 < snd js) (enumerate 0 c)) = active_rows mlv mo i c l"
    unfolding active_rows_def
  proof (intro map_cong refl)
    fix js assume "js \<in> set (filter (\<lambda>js. 1 / 2 < snd js) (enumerate 0 c))"
    then have "fst js < length c" by (auto simp: in_set_enumerate_eq)
    then show "(case js of (j, s) \<Rightarrow> (i, j div mo, ?l' ! (j * 3), ?l' ! (j * 3 + 1), ?l' ! (j * 3 + 2))) =
               (case js of (j, s) \<Rightarrow> (i, j div mo, l ! (j * 3) * mlv, l ! (j * 3 + 1) * mlv, l ! (j * 3 + 2) * mlv))"
      using idx [of "fst js" 0] idx [of "fst js" 1] idx [of "fst js" 2] by (cases js) simp
  qed
  show ?thesis
  proof (cases "sum_list (map np_round c) = 0")
    case True
    then have "active_rows mlv mo i c l = []"
      using sum_round_zero [OF assms(3), of 0] by (simp add: active_rows_def)
    then show ?thesis using True assms(4) by (simp add: decode_frame_def Let_def)
  next
    case False
    then show ?thesis
      using efold_decode_slot [OF assms(1,3), of 0 nc i ?l' out] assms(2,4) rows
      by (simp add: decode_frame_def Let_def enumerate_py_def)
  qed
qed

lemma efold_decode_frame:
  assumes "0 < mo"
  shows "\<forall>cl\<in>set fs. length (fst cl) = nc * mo \<and> (\<forall>s\<in>set (fst cl). 0 \<le> s \<and> s \<le> 1) \<and>
            length (snd cl) = nc * mo * 3 \<Longrightarrow>
     efold (decode_frame mlv nc mo) (enumerate a fs) out =
     Inr (out @ concat (map (\<lambda>icl. case icl of (i, c, l) \<Rightarrow> active_rows mlv mo i c l) (enumerate a fs)))"
proof (induction fs arbitrary: a out)
  case Nil
  then show ?case by simp
next
  case (Cons f fs)
  obtain c l where f: "f = (c, l)" by (cases f)
  have "decode_frame mlv nc mo (a, c, l) out = Inr (out @ active_rows mlv mo a c l)"
    using Cons.prems f by (intro decode_frame_rows [OF assms]) auto
  then show ?case using Cons.IH [of "Suc a"] Cons.prems f by simp
qed

text \<open>
  C5, as amended. For scores between 0 and 1 (the presence head ends in a sigmoid),
  rounding gives 1 exactly for a score above one half and 0 for one half and below
  (\<^verbatim>\<open>np.round\<close> sends the tie 0.5 to the even neighbour 0). On class rows of
  \<open>num_classes * max_overlaps\<close> such scores and location rows of three times that
  length the decoder never raises, and its output is, frame by frame and slot by slot,
  one row \<open>[frame, j div max_overlaps, x, y, z]\<close> for each slot whose score exceeds
  one half, with the location of slot \<open>j\<close> multiplied by \<open>max_loc_value\<close>; a
  frame without such a slot adds nothing.
\<close>

theorem gen_submission_list_task2_rows:
  assumes "0 < max_overlaps"
    and "\<forall>c\<in>set sed. length c = num_classes * max_overlaps \<and> (\<forall>s\<in>set c. 0 \<le> s \<and> s \<le> 1)"
    and "\<forall>l\<in>set doa. length l = num_classes * max_overlaps * 3"
  shows "(\<forall>c\<in>set sed. \<forall>s\<in>set c. np_round s = (if 1 / 2 < s then 1 else 0)) \<and>
         gen_submission_list_task2 sed doa max_loc_value num_classes max_overlaps =
         Inr (concat (map (\<lambda>icl. case icl of (i, c, l) \<Rightarrow> active_rows max_loc_value max_overlaps i c l)
                (enumerate 0 (zip sed doa))))"
proof
  show "\<forall>c\<in>set sed. \<forall>s\<in>set c. np_round s = (if 1 / 2 < s then 1 else 0)"
    using assms(2) by (auto simp: np_round_unit)
  have "\<forall>cl\<in>set (zip sed doa). length (fst cl) = num_classes * max_overlaps \<and>
          (\<forall>s\<in>set (fst cl). 0 \<le> s \<and> s \<le> 1) \<and> length (snd cl) = num_classes * max_overlaps * 3"
    using assms(2,3) by (auto dest: set_zip_leftD set_zip_rightD)
  then show "gen_submission_list_task2 sed doa max_loc_value num_classes max_overlaps =
         Inr (concat (map (\<lambda>icl. case icl of (i, c, l) \<Rightarrow> active_rows max_loc_value max_overlaps i c l)
                (enumerate 0 (zip sed doa))))"
    using efold_decode_frame [OF assms(1), of "zip sed doa" num_classes max_loc_value 0 "[]"]
    by (simp add: gen_submission_list_task2_def enumerate_py_def)
qed

theorem gen_submission_list_task2_rows_witness:
  "np_round (2 / 5) = 0 \<and> np_round 1 = 1 \<and>
   gen_submission_list_task2
     [[2 / 5, 0, 0, 0, 1, 0], [0, 2 / 5, 0, 0, 0, 0]]
     [[0, 0, 0, 0, 0, 0, 0, 0, 0, 0, 0, 0, 1 / 2, 1 / 4, - 1 / 2, 0, 0, 0],
      [1, 1, 1, 1, 1, 1, 1, 1, 1, 1, 1, 1, 1, 1, 1, 1, 1, 1]]
     2 2 3
   = Inr [(0, 1, 1, 1 / 2, - 1)]"
  using gen_submission_list_task2_rows
    [of 3 "[[2 / 5, 0, 0, 0, 1, 0], [0, 2 / 5, 0, 0, 0, 0]]" 2
        "[[0, 0, 0, 0, 0, 0, 0, 0, 0, 0, 0, 0, 1 / 2, 1 / 4, - 1 / 2, 0, 0, 0],
          [1, 1, 1, 1, 1, 1, 1, 1, 1, 1, 1, 1, 1, 1, 1, 1, 1, 1]]" 2]
  by (simp add: active_rows_def)

text \<open>
  C5 as stated fails at the score 0.5: it rounds to 0, and the frame emits no row.
\<close>

theorem gen_submission_list_task2_half_score:
  "np_round (1 / 2) = 0 \<and>
   gen_submission_list_task2 [[1 / 2]] [[1, 1, 1]] 2 1 1 = Inr []"
  by code_simp

section \<open>Cut points and lines\<close>

lemma ceil_div_step:
  assumes "0 < step" "0 < (d::nat)"
  shows "(d + step - 1) div step = Suc ((d - step + step - 1) div step)"
proof (cases "step \<le> d")
  case True
  then have "d + step - 1 = (d - step + step - 1) + step" using assms by simp
  then show ?thesis using assms by (simp only: div_add_self2)
next
  case False
  then have "d - step = 0" by simp
  moreover have "(d + step - 1) div step = 1"
    using False assms by (intro div_nat_eqI) simp_all
  ultimately show ?thesis using assms by simp
qed

lemma map_upt_Suc_shift: "map f [0..<Suc m] = f 0 # map (\<lambda>k. f (Suc k)) [0..<m]"
  by (simp only: upt_conv_Cons [of 0 "Suc m"] map_Suc_upt [symmetric]) (simp add: comp_def)

lemma arange_from_closed:
  "0 < step \<Longrightarrow>
   arange_from cur stop step =
   map (\<lambda>k. cur + k * step) [0..<(stop - cur + step - 1) div step]"
proof (induction cur stop step rule: arange_from.induct)
  case (1 cur stop step)
  show ?case
  proof (cases "cur < stop")
    case False
    then have "(stop - cur + step - 1) div step = 0" using "1.prems" by simp
    then show ?thesis using False by (simp del: arange_from.simps add: arange_from.simps [of cur])
  next
    case True
    let ?m = "(stop - (cur + step) + step - 1) div step"
    have n: "(stop - cur + step - 1) div step = Suc ?m"
      using ceil_div_step [OF "1.prems", of "stop - cur"] True by simp
    have IH: "arange_from (cur + step) stop step = map (\<lambda>k. cur + step + k * step) [0..<?m]"
      using "1.IH" "1.prems" True by simp
    have "arange_from cur stop step = cur # arange_from (cur + step) stop step"
      using True "1.prems" by (subst arange_from.simps) simp
    also have "\<dots> = cur # map (\<lambda>k. cur + Suc k * step) [0..<?m]"
      using IH by (simp add: add.assoc add.commute)
    also have "\<dots> = map (\<lambda>k. cur + k * step) [0..<Suc ?m]"
      by (simp only: map_upt_Suc_shift [of "\<lambda>k. cur + k * step"]) simp
    finally show ?thesis using n by simp
  qed
qed

lemma np_arange_closed:
  "np_arange stop step =
     (if step = 0 then Inl ZeroDivisionError
      else if step < 0 then Inr []
      else Inr (map (\<lambda>k. k * nat step) [0..<(stop + nat step - 1) div nat step]))"
  by (simp add: np_arange_def arange_from_closed del: arange_from.simps)


























section \<open>The errors of the paired segmenter\<close>

lemma emap_error: "emap f xs = Inl e \<Longrightarrow> \<exists>x\<in>set xs. f x = Inl e"
proof (induction xs)
  case Nil
  then show ?case by simp
next
  case (Cons x xs)
  show ?case
  proof (cases "f x")
    case (Inl e')
    then show ?thesis using Cons.prems by simp
  next
    case (Inr y)
    show ?thesis
    proof (cases "emap f xs")
      case (Inl e')
      then have "e' = e" using Cons.prems Inr by simp
      then show ?thesis using Cons.IH Inl by simp
    next
      case (Inr ys)
      then show ?thesis using Cons.prems \<open>f x = Inr y\<close> by simp
    qed
  qed
qed

lemma emap_nth:
  "emap f xs = Inr ys \<Longrightarrow> length ys = length xs \<and> (\<forall>i<length xs. f (xs ! i) = Inr (ys ! i))"
proof (induction xs arbitrary: ys)
  case Nil
  then show ?case by simp
next
  case (Cons x xs)
  from Cons.prems obtain y where y: "f x = Inr y" by (cases "f x") simp_all
  from Cons.prems y obtain ys' where ys': "emap f xs = Inr ys'" by (cases "emap f xs") simp_all
  have ys: "ys = y # ys'" using Cons.prems y ys' by simp
  from Cons.IH [OF ys'] have IH: "length ys' = length xs" "\<forall>i<length xs. f (xs ! i) = Inr (ys' ! i)"
    by simp_all
  show ?case
  proof (intro conjI allI impI)
    show "length ys = length (x # xs)" using ys IH(1) by simp
    fix i assume "i < length (x # xs)"
    then show "f ((x # xs) ! i) = Inr (ys ! i)" using ys y IH(2) by (cases i) simp_all
  qed
qed

lemma messages_differ: "mismatch_message \<noteq> broadcast_message"
  by (simp add: mismatch_message_def broadcast_message_def)

lemma pad3_error: "pad3 x d = Inl e \<Longrightarrow> e = ValueError broadcast_message"
  by (simp add: pad3_def split: if_splits)

lemma py_get_error: "py_get xs i = Inl e \<Longrightarrow> e = IndexError"
  by (simp add: py_get_def split: if_splits)

lemma ebind_error: "ebind m f = Inl e \<Longrightarrow> m = Inl e \<or> (\<exists>v. m = Inr v \<and> f v = Inl e)"
  by (cases m) simp_all

lemma task2_chunk_error:
  assumes "task2_chunk predictors target3 plen tlen cp ct i = Inl e"
  shows "e = IndexError \<or> e = ValueError broadcast_message"
proof -
  from assms [unfolded task2_chunk_def] show ?thesis
    by (auto simp: Let_def split: if_splits dest!: ebind_error dest: py_get_error pad3_error)
qed

lemma segment_task2_Inr:
  assumes "segment_task2 fl predictors target plen tlen overlap = Inr (X, Y)"
  shows "\<exists>cp ct chunks.
           cuts_predictors_of fl predictors plen overlap = Inr cp \<and>
           cuts_target_of fl target tlen overlap = Inr ct \<and>
           length cp = length ct \<and>
           emap (task2_chunk predictors (reshape_target target) plen tlen cp ct) [0..<length cp] = Inr chunks \<and>
           X = map fst chunks \<and> Y = map snd chunks"
proof -
  obtain cp where cp: "cuts_predictors_of fl predictors plen overlap = Inr cp"
    using assms by (cases "cuts_predictors_of fl predictors plen overlap") (simp_all add: segment_task2_def)
  obtain ct where ct: "cuts_target_of fl target tlen overlap = Inr ct"
    using assms cp by (cases "cuts_target_of fl target tlen overlap") (simp_all add: segment_task2_def)
  have len: "length cp = length ct"
    using assms cp ct by (simp add: segment_task2_def split: if_splits)
  obtain chunks where chunks:
    "emap (task2_chunk predictors (reshape_target target) plen tlen cp ct) [0..<length cp] = Inr chunks"
    using assms cp ct len
    by (cases "emap (task2_chunk predictors (reshape_target target) plen tlen cp ct) [0..<length cp]")
       (simp_all add: segment_task2_def)
  have "X = map fst chunks \<and> Y = map snd chunks"
    using assms cp ct len chunks by (simp add: segment_task2_def)
  then show ?thesis using cp ct len chunks by blast
qed

text \<open>
  C7, as amended. When both lists of cut points exist (both strides are non-zero), the
  paired segmenter raises the ValueError of line 292 (the two streams give different
  numbers of frames) if and only if the two lists differ in length; the test stands
  before the loop, so no chunk has been cut then. When it returns, it returns as many
  predictor chunks as target chunks, one per cut point. Equal counts do not exclude
  every ValueError: the zero-padding inside the loop can still raise one of its own.
\<close>

theorem segment_task2_mismatch:
  assumes "cuts_predictors_of fl predictors plen overlap = Inr cp"
    and "cuts_target_of fl target tlen overlap = Inr ct"
  shows "(segment_task2 fl predictors target plen tlen overlap = Inl (ValueError mismatch_message)
            \<longleftrightarrow> length cp \<noteq> length ct) \<and>
         (\<forall>X Y. segment_task2 fl predictors target plen tlen overlap = Inr (X, Y) \<longrightarrow>
            length cp = length ct \<and> length X = length cp \<and> length Y = length ct)"
proof (rule conjI)
  show "segment_task2 fl predictors target plen tlen overlap = Inl (ValueError mismatch_message)
          \<longleftrightarrow> length cp \<noteq> length ct"
  proof
    assume raised: "segment_task2 fl predictors target plen tlen overlap = Inl (ValueError mismatch_message)"
    show "length cp \<noteq> length ct"
    proof
      assume eq: "length cp = length ct"
      let ?loop = "emap (task2_chunk predictors (reshape_target target) plen tlen cp ct) [0..<length cp]"
      from raised assms eq have "?loop = Inl (ValueError mismatch_message)"
        by (cases ?loop) (simp_all add: segment_task2_def)
      from emap_error [OF this] obtain i where
        "task2_chunk predictors (reshape_target target) plen tlen cp ct i = Inl (ValueError mismatch_message)"
        by blast
      from task2_chunk_error [OF this] show False using messages_differ by simp
    qed
  next
    assume "length cp \<noteq> length ct"
    then show "segment_task2 fl predictors target plen tlen overlap = Inl (ValueError mismatch_message)"
      using assms by (simp add: segment_task2_def)
  qed
next
  show "\<forall>X Y. segment_task2 fl predictors target plen tlen overlap = Inr (X, Y) \<longrightarrow>
            length cp = length ct \<and> length X = length cp \<and> length Y = length ct"
  proof (intro allI impI)
    fix X Y assume ok: "segment_task2 fl predictors target plen tlen overlap = Inr (X, Y)"
    from segment_task2_Inr [OF ok] assms obtain chunks where
      c: "length cp = length ct"
         "emap (task2_chunk predictors (reshape_target target) plen tlen cp ct) [0..<length cp] = Inr chunks"
         "X = map fst chunks" "Y = map snd chunks" by auto
    from emap_nth [OF c(2)] have "length chunks = length cp" by simp
    then show "length cp = length ct \<and> length X = length cp \<and> length Y = length ct"
      using c by simp
  qed
qed

theorem segment_task2_mismatch_witness:
  "segment_task2 exact \<lparr>dim0 = 1, dim1 = 1, dim2 = 10, flat3 = [1, 2, 3, 4, 5, 6, 7, 8, 9, 10]\<rparr>
     \<lparr>rows2 = 8, cols2 = 1, flat2 = [1, 2, 3, 4, 5, 6, 7, 8]\<rparr> 8 4 (1 / 2)
   = Inl (ValueError mismatch_message)"
proof -
  have cp: "cuts_predictors_of exact \<lparr>dim0 = 1, dim1 = 1, dim2 = 10, flat3 = [1, 2, 3, 4, 5, 6, 7, 8, 9, 10]\<rparr>
              8 (1 / 2) = Inr [0, 4, 8]"
    by code_simp
  have ct: "cuts_target_of exact \<lparr>rows2 = 8, cols2 = 1, flat2 = [1, 2, 3, 4, 5, 6, 7, 8]\<rparr> 4 (1 / 2)
              = Inr [0, 2, 4, 6]"
    by code_simp
  from segment_task2_mismatch [OF cp ct] show ?thesis by simp
qed

text \<open>
  C7 as stated fails for a spectrogram of 9 time steps and a label matrix of 11
  frames cut with segment lengths 10 and overlap 0.4: both streams give the three cut
  points 0, 4, 8, and the call still raises a ValueError, in the very first iteration,
  when the 11 target frames are padded into 10 columns.
\<close>

theorem segment_task2_broadcast_error:
  "cuts_predictors_of exact \<lparr>dim0 = 1, dim1 = 1, dim2 = 9, flat3 = [1, 2, 3, 4, 5, 6, 7, 8, 9]\<rparr>
     10 (2 / 5) = Inr [0, 4, 8] \<and>
   cuts_target_of exact \<lparr>rows2 = 11, cols2 = 1, flat2 = [1, 2, 3, 4, 5, 6, 7, 8, 9, 10, 11]\<rparr>
     10 (2 / 5) = Inr [0, 4, 8] \<and>
   segment_task2 exact \<lparr>dim0 = 1, dim1 = 1, dim2 = 9, flat3 = [1, 2, 3, 4, 5, 6, 7, 8, 9]\<rparr>
     \<lparr>rows2 = 11, cols2 = 1, flat2 = [1, 2, 3, 4, 5, 6, 7, 8, 9, 10, 11]\<rparr> 10 10 (2 / 5)
   = Inl (ValueError ''could not broadcast input array'')"
  by code_simp

section \<open>The cut points of the segmenters\<close>

text \<open>
  The cut points in closed form. The paired segmenter cuts each stream at the
  multiples of \<open>int(segment_len * overlap)\<close> below the length of its time axis,
  computed from the stream's own segment length; a stride of zero raises, and a
  negative stride gives no cut point. The waveform segmenter cuts at the multiples of
  its length.
\<close>

lemma cut_points_closed:
  "cuts_predictors_of fl predictors plen overlap =
     (let step = py_int (fmul fl (real plen) overlap) in
        if step = 0 then Inl ZeroDivisionError
        else if step < 0 then Inr []
        else Inr (map (\<lambda>k. k * nat step) [0..<n_cuts (dim2 predictors) (nat step)])) \<and>
   cuts_target_of fl target tlen overlap =
     (let step = py_int (fmul fl (real tlen) overlap) in
        if step = 0 then Inl ZeroDivisionError
        else if step < 0 then Inr []
        else Inr (map (\<lambda>k. k * nat step) [0..<n_cuts (rows2 target) (nat step)])) \<and>
   cuts_waveforms_of waveforms len =
     (if len = 0 then Inl ZeroDivisionError
      else Inr (map (\<lambda>k. k * len) [0..<n_cuts (cols2 waveforms) len]))"
  by (simp add: cuts_predictors_of_def cuts_target_of_def cuts_waveforms_of_def
      np_arange_closed n_cuts_def reshape_target_def Let_def)

text \<open>
  C6. The claim asks for cut points at stride \<open>segment_len * (1 - overlap)\<close>; lines
  288 and 289 pass \<open>int(segment_len * overlap)\<close> to \<^verbatim>\<open>np.arange\<close>, so the parameter
  called \<^verbatim>\<open>overlap\<close> acts as the hop fraction. With an overlap of one quarter, segment
  lengths 8 and 4, and a spectrogram of 16 steps with 8 label frames, the stated
  strides are 6 and 3; the code cuts at 0, 2, ..., 14 and at 0, 1, ..., 7, so that
  consecutive chunks share three quarters of their steps. With an overlap of 0, chunks
  that should not overlap at all, the call raises on the zero step; with an overlap of
  1 it returns two chunks that do not overlap. The waveform segmenter cuts at the
  multiples of its length, as the claim says.
\<close>

theorem segment_task2_quarter_overlap:
  "cuts_predictors_of exact
     \<lparr>dim0 = 1, dim1 = 1, dim2 = 16,
      flat3 = [1, 2, 3, 4, 5, 6, 7, 8, 9, 10, 11, 12, 13, 14, 15, 16]\<rparr> 8 (1 / 4)
   = Inr [0, 2, 4, 6, 8, 10, 12, 14] \<and>
   cuts_target_of exact \<lparr>rows2 = 8, cols2 = 1, flat2 = [1, 2, 3, 4, 5, 6, 7, 8]\<rparr> 4 (1 / 4)
   = Inr [0, 1, 2, 3, 4, 5, 6, 7] \<and>
   py_int (real 8 * (1 - 1 / 4)) = 6 \<and> py_int (real 4 * (1 - 1 / 4)) = 3 \<and>
   segment_task2 exact
     \<lparr>dim0 = 1, dim1 = 1, dim2 = 16,
      flat3 = [1, 2, 3, 4, 5, 6, 7, 8, 9, 10, 11, 12, 13, 14, 15, 16]\<rparr>
     \<lparr>rows2 = 8, cols2 = 1, flat2 = [1, 2, 3, 4, 5, 6, 7, 8]\<rparr> 8 4 0
   = Inl ZeroDivisionError \<and>
   segment_task2 exact
     \<lparr>dim0 = 1, dim1 = 1, dim2 = 16,
      flat3 = [1, 2, 3, 4, 5, 6, 7, 8, 9, 10, 11, 12, 13, 14, 15, 16]\<rparr>
     \<lparr>rows2 = 8, cols2 = 1, flat2 = [1, 2, 3, 4, 5, 6, 7, 8]\<rparr> 8 4 1
   = Inr ([\<lparr>dim0 = 1, dim1 = 1, dim2 = 8, flat3 = [1, 2, 3, 4, 5, 6, 7, 8]\<rparr>,
           \<lparr>dim0 = 1, dim1 = 1, dim2 = 8, flat3 = [9, 10, 11, 12, 13, 14, 15, 16]\<rparr>],
          [\<lparr>rows2 = 4, cols2 = 1, flat2 = [1, 2, 3, 4]\<rparr>,
           \<lparr>rows2 = 4, cols2 = 1, flat2 = [5, 6, 7, 8]\<rparr>]) \<and>
   cuts_waveforms_of \<lparr>rows2 = 1, cols2 = 7, flat2 = [1, 2, 3, 4, 5, 6, 7]\<rparr> 3 = Inr [0, 3, 6]"
  by code_simp

section \<open>The chunks of the segmenters\<close>





















section \<open>The spectrum of a monophonic signal\<close>

text \<open>
  C10. For a one-dimensional signal the transform has two axes (frequency, time).
  With \<open>output_phase\<close>, the default, the concatenation along axis -3 raises an
  AxisError; without it, cutting the DC bin or the last time frame indexes three axes
  and raises an IndexError. Only a signal with a channel axis passes: its spectrum has
  the shape (2 * channels, frequencies - 1, time frames - 1) under the default flags.
\<close>

theorem spectrum_fast_monophonic:
  "spectrum_fast_shape (stft_shape [n_samples] n_freq n_time) cut_dc True cut_last_timeframe
     = Inl AxisError \<and>
   spectrum_fast_shape (stft_shape [n_samples] n_freq n_time) True False cut_last_timeframe
     = Inl IndexError \<and>
   spectrum_fast_shape (stft_shape [n_samples] n_freq n_time) cut_dc False True
     = Inl IndexError \<and>
   spectrum_fast_shape (stft_shape [n_channels, n_samples] n_freq n_time) True True True
     = Inr [2 * n_channels, n_freq - 1, n_time - 1]"
  by (simp add: spectrum_fast_shape_def stft_shape_def concatenate_axis_m3_def
      cut_dc_shape_def cut_last_shape_def)

end
